theory Spec2Isabelle
  imports Complex_Main
begin

section \<open>The Redis port\<close>

text \<open>
  The queue keeps all of its state in Redis and reaches it through
  \<^verbatim>\<open>redisClient.send(command, args)\<close>. A key holds one typed value; a command sent
  to a key of another type is answered with a WRONGTYPE error, which the client turns
  into a rejected promise (an exception at the \<^verbatim>\<open>await\<close>). An empty list, set,
  sorted set or hash does not exist as a key.

  A number is written to Redis as its decimal string and read back with \<^verbatim>\<open>Number\<close>,
  and an object as its JSON text, read back with \<^verbatim>\<open>JSON.parse\<close>; a hash field of the
  model holds the value itself.
\<close>

datatype backoffType = Fixed | Exponential

record backoffOptions =
  backoffType :: backoffType
  backoffDelay :: int

record deadLetterQueueOptions =
  queueSuffix :: "string option"
  maxRetries :: "nat option"
  removeFromOriginalQueue :: "bool option"
  enabled :: "bool option"

datatype deadLetterOption = DeadLetterFlag bool | DeadLetterObject deadLetterQueueOptions

record jobOptions =
  delay :: "int option"
  attempts :: "nat option"
  backoff :: "backoffOptions option"
  priority :: "int option"
  lifo :: "bool option"
  jobId :: "string option"
  dependsOn :: "string list option"
  deadLetter :: "deadLetterOption option"

datatype hval =
    HStr string
  | HNum int
  | HOpts jobOptions
  | HStrs "string list"
  | HData "(string \<times> string) list"

datatype rvalue =
    RString string
  | RList "string list"
  | RSet "string list"
  | RZSet "(string \<times> int) list"
  | RHash "(string \<times> hval) list"

datatype error =
    WrongType string
  | JobNotFound string
  | LockNotAcquired string
  | HandlerError string
  | InvalidPriority

datatype event =
    JobAdded string string
  | JobDelayed string int
  | JobRemoved string
  | JobCompleted string
  | JobFailed string string
  | JobMovedToDeadLetter string string string
  | ErrorEvent error

text \<open>
  The world a queue runs in: the Redis keyspace, the events emitted so far (oldest
  first), the jobs handed to the handler so far (oldest first), and three oracles:
  \<open>clock\<close> gives the successive readings of \<^verbatim>\<open>Date.now()\<close>, \<open>idgen\<close> the
  successive results of \<^verbatim>\<open>generateId()\<close>, and \<open>random\<close> the successive results of
  Lua's \<^verbatim>\<open>math.random()\<close> inside Redis, as the text Lua prints for them. (The clock
  read \<^verbatim>\<open>generateId\<close> makes for itself is part of its own oracle.)
\<close>

record world =
  redis :: "string \<Rightarrow> rvalue option"
  events :: "event list"
  handled :: "string list"
  clock :: "nat \<Rightarrow> int"
  clockReads :: nat
  idgen :: "nat \<Rightarrow> string"
  idReads :: nat
  random :: "nat \<Rightarrow> string"
  randomReads :: nat

type_synonym 'a io = "world \<Rightarrow> (error + 'a) \<times> world"

definition ret :: "'a \<Rightarrow> 'a io" where
  "ret x = (\<lambda>w. (Inr x, w))"

definition throw :: "error \<Rightarrow> 'a io" where
  "throw e = (\<lambda>w. (Inl e, w))"

definition bnd :: "'a io \<Rightarrow> ('a \<Rightarrow> 'b io) \<Rightarrow> 'b io" where
  "bnd m f = (\<lambda>w. case m w of (Inl e, w') \<Rightarrow> (Inl e, w') | (Inr x, w') \<Rightarrow> f x w')"

definition seq :: "'a io \<Rightarrow> 'b io \<Rightarrow> 'b io" where
  "seq m k = bnd m (\<lambda>_. k)"

definition catch :: "'a io \<Rightarrow> (error \<Rightarrow> 'a io) \<Rightarrow> 'a io" where
  "catch m h = (\<lambda>w. case m w of (Inl e, w') \<Rightarrow> h e w' | (Inr x, w') \<Rightarrow> (Inr x, w'))"

definition finally_do :: "'a io \<Rightarrow> unit io \<Rightarrow> 'a io" where
  "finally_do m f = (\<lambda>w. case m w of
       (Inl e, w') \<Rightarrow> (case f w' of (Inl e', w'') \<Rightarrow> (Inl e', w'') | (Inr _, w'') \<Rightarrow> (Inl e, w''))
     | (Inr x, w') \<Rightarrow> (case f w' of (Inl e', w'') \<Rightarrow> (Inl e', w'') | (Inr _, w'') \<Rightarrow> (Inr x, w'')))"

fun forEach :: "'a list \<Rightarrow> ('a \<Rightarrow> unit io) \<Rightarrow> unit io" where
  "forEach [] f = ret ()"
| "forEach (x # xs) f = seq (f x) (forEach xs f)"

definition dateNow :: "int io" where
  "dateNow = (\<lambda>w. (Inr (clock w (clockReads w)), w\<lparr>clockReads := Suc (clockReads w)\<rparr>))"

definition generateId :: "string io" where
  "generateId = (\<lambda>w. (Inr (idgen w (idReads w)), w\<lparr>idReads := Suc (idReads w)\<rparr>))"

definition mathRandom :: "string io" where
  "mathRandom = (\<lambda>w. (Inr (random w (randomReads w)), w\<lparr>randomReads := Suc (randomReads w)\<rparr>))"

definition emit :: "event \<Rightarrow> unit io" where
  "emit e = (\<lambda>w. (Inr (), w\<lparr>events := events w @ [e]\<rparr>))"

definition readKey :: "string \<Rightarrow> rvalue option io" where
  "readKey k = (\<lambda>w. (Inr (redis w k), w))"

definition writeKey :: "string \<Rightarrow> rvalue option \<Rightarrow> unit io" where
  "writeKey k v = (\<lambda>w. (Inr (), w\<lparr>redis := (redis w)(k := v)\<rparr>))"

subsection \<open>Strings and keys\<close>

definition GET :: "string \<Rightarrow> string option io" where
  "GET k = bnd (readKey k) (\<lambda>v. case v of
       None \<Rightarrow> ret None
     | Some (RString s) \<Rightarrow> ret (Some s)
     | Some _ \<Rightarrow> throw (WrongType k))"

definition SET :: "string \<Rightarrow> string \<Rightarrow> unit io" where
  "SET k s = writeKey k (Some (RString s))"

text \<open>\<^verbatim>\<open>SET key value NX PX ms\<close>: the reply is OK (\<open>True\<close>) when the key was absent.\<close>

definition SET_NX :: "string \<Rightarrow> string \<Rightarrow> bool io" where
  "SET_NX k s = bnd (readKey k) (\<lambda>v. case v of
       None \<Rightarrow> seq (writeKey k (Some (RString s))) (ret True)
     | Some _ \<Rightarrow> ret False)"

definition EXISTS :: "string \<Rightarrow> bool io" where
  "EXISTS k = bnd (readKey k) (\<lambda>v. ret (v \<noteq> None))"

definition DEL :: "string list \<Rightarrow> unit io" where
  "DEL ks = forEach ks (\<lambda>k. writeKey k None)"

subsection \<open>Sorted sets\<close>

text \<open>
  A sorted set is kept as its (member, score) pairs, one per member. Redis orders it by
  score and, among equal scores, by the bytes of the member; the reading commands
  sort.
\<close>

fun lexLess :: "string \<Rightarrow> string \<Rightarrow> bool" where
  "lexLess [] [] = False"
| "lexLess [] (y # ys) = True"
| "lexLess (x # xs) [] = False"
| "lexLess (x # xs) (y # ys) =
     ((of_char x :: nat) < of_char y \<or> (x = y \<and> lexLess xs ys))"

definition zbefore :: "string \<times> int \<Rightarrow> string \<times> int \<Rightarrow> bool" where
  "zbefore a b = (snd a < snd b \<or> (snd a = snd b \<and> lexLess (fst a) (fst b)))"

fun zinsert :: "string \<times> int \<Rightarrow> (string \<times> int) list \<Rightarrow> (string \<times> int) list" where
  "zinsert e [] = [e]"
| "zinsert e (x # xs) = (if zbefore e x then e # x # xs else x # zinsert e xs)"

definition zsorted :: "(string \<times> int) list \<Rightarrow> (string \<times> int) list" where
  "zsorted zs = foldr zinsert zs []"

definition zsetOf :: "string \<Rightarrow> (string \<times> int) list io" where
  "zsetOf k = bnd (readKey k) (\<lambda>v. case v of
       None \<Rightarrow> ret []
     | Some (RZSet zs) \<Rightarrow> ret zs
     | Some _ \<Rightarrow> throw (WrongType k))"

definition putZSet :: "string \<Rightarrow> (string \<times> int) list \<Rightarrow> unit io" where
  "putZSet k zs = writeKey k (if zs = [] then None else Some (RZSet zs))"

definition ZADD :: "string \<Rightarrow> int \<Rightarrow> string \<Rightarrow> unit io" where
  "ZADD k score member = bnd (zsetOf k) (\<lambda>zs.
     putZSet k (filter (\<lambda>e. fst e \<noteq> member) zs @ [(member, score)]))"

definition ZREM :: "string \<Rightarrow> string \<Rightarrow> nat io" where
  "ZREM k member = bnd (zsetOf k) (\<lambda>zs.
     seq (putZSet k (filter (\<lambda>e. fst e \<noteq> member) zs))
         (ret (length (filter (\<lambda>e. fst e = member) zs))))"

definition ZCARD :: "string \<Rightarrow> nat io" where
  "ZCARD k = bnd (zsetOf k) (\<lambda>zs. ret (length zs))"

definition ZRANGEBYSCORE :: "string \<Rightarrow> int \<Rightarrow> int \<Rightarrow> string list io" where
  "ZRANGEBYSCORE k lo hi = bnd (zsetOf k) (\<lambda>zs.
     ret (map fst (filter (\<lambda>e. lo \<le> snd e \<and> snd e \<le> hi) (zsorted zs))))"

definition ZREMRANGEBYSCORE :: "string \<Rightarrow> int \<Rightarrow> int \<Rightarrow> unit io" where
  "ZREMRANGEBYSCORE k lo hi = bnd (zsetOf k) (\<lambda>zs.
     putZSet k (filter (\<lambda>e. \<not> (lo \<le> snd e \<and> snd e \<le> hi)) zs))"

text \<open>\<^verbatim>\<open>ZRANGE key 0 0 WITHSCORES\<close>: the first pair in the set's order, if any.\<close>

definition ZRANGE_first :: "string \<Rightarrow> (string \<times> int) option io" where
  "ZRANGE_first k = bnd (zsetOf k) (\<lambda>zs.
     ret (case zsorted zs of [] \<Rightarrow> None | e # _ \<Rightarrow> Some e))"

section \<open>The rate limiter\<close>

subsection \<open>The script \<^verbatim>\<open>rateLimit-1.lua\<close>\<close>

text \<open>
  Lua joins a number to a string with \<^verbatim>\<open>..\<close> by printing the number; a timestamp
  prints as its decimal digits.
\<close>

definition digitChar :: "nat \<Rightarrow> char" where
  "digitChar d = ''0123456789'' ! d"

fun digitsOf :: "nat \<Rightarrow> string" where
  "digitsOf n =
     (if n < 10 then [digitChar n]
      else digitsOf (n div 10) @ [digitChar (n mod 10)])"

definition numText :: "int \<Rightarrow> string" where
  "numText i = (if i < 0 then CHR ''-'' # digitsOf (nat (- i)) else digitsOf (nat i))"

record rateLimitReply =
  replyLimited :: int
  replyRemaining :: int
  replyTimeToReset :: int

text \<open>
  \<^verbatim>\<open>EXPIRE\<close> sets a time to live of \<open>\<lceil>duration / 1000\<rceil>\<close> seconds on the key. The
  keyspace of the model has no timers; the command is left out. (The time to live is at
  least \<open>duration\<close> and restarts at every insertion, so when it runs out every entry is
  at least \<open>duration\<close> old.)
\<close>

definition rateLimitKey :: "string \<Rightarrow> string \<Rightarrow> string" where
  "rateLimitKey key1 identifier = key1 @ '':'' @ identifier"

definition tokenMember :: "int \<Rightarrow> string \<Rightarrow> string" where
  "tokenMember now r = numText now @ '':'' @ r"

definition rateLimit :: "string \<Rightarrow> string \<Rightarrow> int \<Rightarrow> int \<Rightarrow> int \<Rightarrow> rateLimitReply io" where
  "rateLimit key1 identifier mx duration now =
     (let k = rateLimitKey key1 identifier in
      seq (ZREMRANGEBYSCORE k 0 (now - duration))
     (bnd (ZCARD k) (\<lambda>tokenCount.
      let limited = (if int tokenCount \<ge> mx then 1 else 0 :: int) in
      bnd (if tokenCount > 0
           then bnd (ZRANGE_first k) (\<lambda>oldest. case oldest of
                  None \<Rightarrow> throw (WrongType k)
                | Some (_, oldestToken) \<Rightarrow> ret (max 0 ((oldestToken + duration) - now)))
           else ret 0) (\<lambda>timeToReset.
      bnd (if limited = 0
           then bnd mathRandom (\<lambda>r.
                seq (ZADD k now (tokenMember now r))
                    (ret (tokenCount + 1)))
           else ret tokenCount) (\<lambda>tokenCount'.
      let remaining = max 0 (mx - int tokenCount') in
      ret \<lparr>replyLimited = limited, replyRemaining = remaining,
           replyTimeToReset = timeToReset\<rparr>)))))"

subsection \<open>RateLimiter\<close>

type_synonym jobData = "(string \<times> string) list"

datatype keyPrefixOption = KeyField string | KeyFunction "jobData \<Rightarrow> string"

record rateLimiterOptions =
  limiterMax :: int
  limiterDuration :: int
  keyPrefix :: "keyPrefixOption option"

record rateLimitResult =
  limited :: bool
  remaining :: int
  resetIn :: int

definition getKey :: "string \<Rightarrow> string \<Rightarrow> string" where
  "getKey queueKeyPrefix name = queueKeyPrefix @ '':'' @ name"

definition limiterIdentifier :: "string \<Rightarrow> rateLimiterOptions \<Rightarrow> jobData option \<Rightarrow> string" where
  "limiterIdentifier queueName options data =
     (case (keyPrefix options, data) of
        (Some (KeyFunction f), Some d) \<Rightarrow> queueName @ '':'' @ f d
      | (Some (KeyField p), Some d) \<Rightarrow>
          (case map_of d p of
             Some keyValue \<Rightarrow> if keyValue \<noteq> [] then queueName @ '':'' @ keyValue else queueName
           | None \<Rightarrow> queueName)
      | _ \<Rightarrow> queueName)"

definition check :: "string \<Rightarrow> string \<Rightarrow> rateLimiterOptions \<Rightarrow> jobData option \<Rightarrow> rateLimitResult io" where
  "check queueKeyPrefix queueName options data =
     (let key = getKey queueKeyPrefix ''limit'' in
      bnd dateNow (\<lambda>now.
      let identifier = limiterIdentifier queueName options data in
      bnd (rateLimit key identifier (limiterMax options) (limiterDuration options) now) (\<lambda>result.
      ret \<lparr>limited = (replyLimited result = 1), remaining = replyRemaining result,
           resetIn = replyTimeToReset result\<rparr>)))"

section \<open>DistributedLock\<close>

definition getLockKey :: "string \<Rightarrow> string \<Rightarrow> string" where
  "getLockKey lockPrefix resource = lockPrefix @ '':'' @ resource"

definition release :: "string \<Rightarrow> string \<Rightarrow> string \<Rightarrow> bool io" where
  "release lockPrefix resource token =
     (let lockKey = getLockKey lockPrefix resource in
      bnd (GET lockKey) (\<lambda>currentToken.
        if currentToken = Some token
        then seq (DEL [lockKey]) (ret True)
        else ret False))"
section \<open>WorkCoordinator\<close>

record instanceRecord =
  maxWorkers :: "int option"
  workersAssigned :: "int option"

type_synonym distribution = "string \<Rightarrow> int option"

text \<open>\<^verbatim>\<open>info.maxWorkers || this.maxWorkersPerInstance\<close>\<close>

definition maxWorkersOf :: "int \<Rightarrow> (string \<Rightarrow> instanceRecord) \<Rightarrow> string \<Rightarrow> int" where
  "maxWorkersOf maxWorkersPerInstance instanceInfo instanceId =
     (case maxWorkers (instanceInfo instanceId) of
        Some m \<Rightarrow> if m \<noteq> 0 then m else maxWorkersPerInstance
      | None \<Rightarrow> maxWorkersPerInstance)"

text \<open>\<^verbatim>\<open>distribution[id] || 0\<close>\<close>

definition assigned :: "distribution \<Rightarrow> string \<Rightarrow> int" where
  "assigned distr instanceId = (case distr instanceId of Some v \<Rightarrow> v | None \<Rightarrow> 0)"

text \<open>
  The first pass computes \<^verbatim>\<open>Math.floor((maxWorkers / remainingCapacity) * remainingWorkers)\<close>
  in double-precision floating point. The model takes that computation as the
  parameter \<open>floorShare\<close>; \<open>exactShare\<close> is its value in exact arithmetic.
\<close>

definition exactShare :: "int \<Rightarrow> int \<Rightarrow> int \<Rightarrow> int" where
  "exactShare m c r = \<lfloor>(of_int m / of_int c :: rat) * of_int r\<rfloor>"

fun firstPass :: "(int \<Rightarrow> int \<Rightarrow> int \<Rightarrow> int) \<Rightarrow> (string \<Rightarrow> int) \<Rightarrow> string list
    \<Rightarrow> distribution \<times> int \<times> int \<Rightarrow> distribution \<times> int \<times> int" where
  "firstPass floorShare maxOf [] st = st"
| "firstPass floorShare maxOf (instanceId # rest) (distr, remainingWorkers, remainingCapacity) =
     (let maxW = maxOf instanceId;
          workerShare = floorShare maxW remainingCapacity remainingWorkers;
          workerShare = min workerShare maxW
      in firstPass floorShare maxOf rest
           (distr(instanceId \<mapsto> workerShare), remainingWorkers - workerShare,
            remainingCapacity - maxW))"

text \<open>
  The second pass: \<^verbatim>\<open>for (let i = 0; i < instancesByRoom.length && remainingWorkers > 0; i++)\<close>,
  where the body sets \<^verbatim>\<open>i = -1\<close> at the last index while workers remain. A loop
  that never ends is the value \<open>None\<close>.
\<close>

partial_function (option) secondPassLoop ::
    "(string \<Rightarrow> int) \<Rightarrow> string list \<Rightarrow> nat \<Rightarrow> int \<Rightarrow> distribution \<Rightarrow> distribution option" where
  "secondPassLoop maxOf instancesByRoom i remainingWorkers distr =
     (if i < length instancesByRoom \<and> remainingWorkers > 0
      then
        let instanceId = instancesByRoom ! i;
            grow = (case distr instanceId of Some v \<Rightarrow> v < maxOf instanceId | None \<Rightarrow> False);
            distr' = (if grow then distr(instanceId \<mapsto> the (distr instanceId) + 1) else distr);
            remainingWorkers' = (if grow then remainingWorkers - 1 else remainingWorkers);
            next = (if i = length instancesByRoom - 1 \<and> remainingWorkers' > 0 then 0 else i + 1)
        in secondPassLoop maxOf instancesByRoom next remainingWorkers' distr'
      else Some distr)"

declare secondPassLoop.simps [code]

definition calculateWorkerDistribution ::
    "(int \<Rightarrow> int \<Rightarrow> int \<Rightarrow> int) \<Rightarrow> int \<Rightarrow> (string \<Rightarrow> instanceRecord) \<Rightarrow> string list
      \<Rightarrow> int \<Rightarrow> int \<Rightarrow> distribution option" where
  "calculateWorkerDistribution floorShare maxWorkersPerInstance instanceInfo activeInstances
       totalWorkers totalMaxWorkers =
     (if activeInstances = [] \<or> totalWorkers = 0 then Some Map.empty
      else
        let maxOf = maxWorkersOf maxWorkersPerInstance instanceInfo;
            totalWorkers' = min totalWorkers totalMaxWorkers;
            (distr, remainingWorkers, remainingCapacity) =
               firstPass floorShare maxOf activeInstances (Map.empty, totalWorkers', totalMaxWorkers)
        in if remainingWorkers > 0
           then
             let instancesByRoom =
                   sort_key (\<lambda>a. (of_int (assigned distr a) / of_int (maxOf a) :: rat))
                     (filter (\<lambda>a. assigned distr a < maxOf a) activeInstances)
             in secondPassLoop maxOf instancesByRoom 0 remainingWorkers distr
           else Some distr)"

text \<open>
  The totals \<open>coordinateWork\<close> passes: \<^verbatim>\<open>totalWorkers += info.workersAssigned || 0\<close> and
  \<^verbatim>\<open>totalMaxWorkers += info.maxWorkers || this.maxWorkersPerInstance\<close> over the active
  instances.
\<close>

definition totalWorkersOf :: "(string \<Rightarrow> instanceRecord) \<Rightarrow> string list \<Rightarrow> int" where
  "totalWorkersOf instanceInfo activeInstances =
     (\<Sum>a\<leftarrow>activeInstances. case workersAssigned (instanceInfo a) of Some v \<Rightarrow> v | None \<Rightarrow> 0)"

definition totalMaxWorkersOf :: "int \<Rightarrow> (string \<Rightarrow> instanceRecord) \<Rightarrow> string list \<Rightarrow> int" where
  "totalMaxWorkersOf maxWorkersPerInstance instanceInfo activeInstances =
     (\<Sum>a\<leftarrow>activeInstances. maxWorkersOf maxWorkersPerInstance instanceInfo a)"

definition coordinateDistribution ::
    "(int \<Rightarrow> int \<Rightarrow> int \<Rightarrow> int) \<Rightarrow> int \<Rightarrow> (string \<Rightarrow> instanceRecord) \<Rightarrow> string list
      \<Rightarrow> distribution option" where
  "coordinateDistribution floorShare maxWorkersPerInstance instanceInfo activeInstances =
     calculateWorkerDistribution floorShare maxWorkersPerInstance instanceInfo activeInstances
       (totalWorkersOf instanceInfo activeInstances)
       (totalMaxWorkersOf maxWorkersPerInstance instanceInfo activeInstances)"
section \<open>CronScheduler\<close>

record cronSchedule =
  minute :: "nat list option"
  hour :: "nat list option"
  dayOfMonth :: "nat list option"
  month :: "nat list option"
  dayOfWeek :: "nat list option"

text \<open>
  A JavaScript \<^verbatim>\<open>Date\<close>, read and written through its local-time fields (the getters
  \<^verbatim>\<open>getFullYear\<close>, \<^verbatim>\<open>getMonth\<close> (0 to 11), \<^verbatim>\<open>getDate\<close>, \<^verbatim>\<open>getHours\<close>,
  \<^verbatim>\<open>getMinutes\<close>, \<^verbatim>\<open>getSeconds\<close>, \<^verbatim>\<open>getMilliseconds\<close>). The system time zone is
  taken to have a fixed offset (no daylight-saving changes), so the order of the
  instants is the order of the local fields.
\<close>

record jsDate =
  fullYear :: int
  monthIndex :: nat
  dateOfMonth :: nat
  hours :: nat
  minutes :: nat
  seconds :: nat
  milliseconds :: nat

definition isLeapYear :: "int \<Rightarrow> bool" where
  "isLeapYear y = (y mod 4 = 0 \<and> (y mod 100 \<noteq> 0 \<or> y mod 400 = 0))"

definition daysInMonth :: "int \<Rightarrow> nat \<Rightarrow> nat" where
  "daysInMonth y m =
     (if m = 1 then (if isLeapYear y then 29 else 28)
      else if m = 3 \<or> m = 5 \<or> m = 8 \<or> m = 10 then 30 else 31)"

text \<open>
  The setters take values beyond a field's range and carry them over, as the
  language's \<^verbatim>\<open>MakeTime\<close> and \<^verbatim>\<open>MakeDay\<close> do: minutes into hours, hours into days, a
  month index beyond 11 into the year, and a day beyond the month's length into the
  next month. (The scheduler never passes a value below a field's range, and never a
  day more than one month's length too large.)
\<close>

definition makeDay :: "int \<Rightarrow> nat \<Rightarrow> nat \<Rightarrow> int \<times> nat \<times> nat" where
  "makeDay y m d =
     (let y1 = y + int (m div 12); m1 = m mod 12
      in if d > daysInMonth y1 m1
         then (y1 + int ((m1 + 1) div 12), (m1 + 1) mod 12, d - daysInMonth y1 m1)
         else (y1, m1, d))"

definition mkDate :: "int \<Rightarrow> nat \<Rightarrow> nat \<Rightarrow> nat \<Rightarrow> nat \<Rightarrow> nat \<Rightarrow> nat \<Rightarrow> jsDate" where
  "mkDate y m d h mi s ms =
     (let h1 = h + mi div 60;
          (y', m', d') = makeDay y m (d + h1 div 24)
      in \<lparr>fullYear = y', monthIndex = m', dateOfMonth = d', hours = h1 mod 24,
           minutes = mi mod 60, seconds = s, milliseconds = ms\<rparr>)"

definition setFullYear :: "jsDate \<Rightarrow> int \<Rightarrow> nat \<Rightarrow> nat \<Rightarrow> jsDate" where
  "setFullYear dt y m d = mkDate y m d (hours dt) (minutes dt) (seconds dt) (milliseconds dt)"

definition setMonth :: "jsDate \<Rightarrow> nat \<Rightarrow> jsDate" where
  "setMonth dt m =
     mkDate (fullYear dt) m (dateOfMonth dt) (hours dt) (minutes dt) (seconds dt) (milliseconds dt)"

definition setDate :: "jsDate \<Rightarrow> nat \<Rightarrow> jsDate" where
  "setDate dt d =
     mkDate (fullYear dt) (monthIndex dt) d (hours dt) (minutes dt) (seconds dt) (milliseconds dt)"

definition setHours :: "jsDate \<Rightarrow> nat \<Rightarrow> nat \<Rightarrow> nat \<Rightarrow> nat \<Rightarrow> jsDate" where
  "setHours dt h mi s ms = mkDate (fullYear dt) (monthIndex dt) (dateOfMonth dt) h mi s ms"

definition setMinutes :: "jsDate \<Rightarrow> nat \<Rightarrow> nat \<Rightarrow> nat \<Rightarrow> jsDate" where
  "setMinutes dt mi s ms =
     mkDate (fullYear dt) (monthIndex dt) (dateOfMonth dt) (hours dt) mi s ms"

definition setSeconds :: "jsDate \<Rightarrow> nat \<Rightarrow> nat \<Rightarrow> jsDate" where
  "setSeconds dt s ms = dt\<lparr>seconds := s, milliseconds := ms\<rparr>"

text \<open>
  \<^verbatim>\<open>getDay\<close>: the day of the week, 0 for Sunday, from the number of days since
  1 January 1970 (a Thursday).
\<close>

definition daysFromCivil :: "int \<Rightarrow> nat \<Rightarrow> nat \<Rightarrow> int" where
  "daysFromCivil y m d =
     (let y1 = (if m < 2 then y - 1 else y);
          era = y1 div 400;
          yoe = y1 - era * 400;
          mp = (if m < 2 then int m + 10 else int m - 2);
          doy = (153 * mp + 2) div 5 + int d - 1;
          doe = yoe * 365 + yoe div 4 - yoe div 100 + doy
      in era * 146097 + doe - 719468)"

definition getDay :: "jsDate \<Rightarrow> nat" where
  "getDay dt = nat ((daysFromCivil (fullYear dt) (monthIndex dt) (dateOfMonth dt) + 4) mod 7)"

text \<open>
  \<^verbatim>\<open>Intl.DateTimeFormat('en-US', {timeZone, ...}).formatToParts(date)\<close> belongs to the
  platform. The model takes it as the parameter \<open>formatToParts\<close>: for a zone name and a
  date it gives the year, the month (1 to 12), the day, the hour and the minute of the
  zone's wall clock, or \<open>None\<close> when the constructor rejects the zone name.
\<close>

record zoneParts =
  zoneYear :: int
  zoneMonth :: nat
  zoneDay :: nat
  zoneHour :: nat
  zoneMinute :: nat

definition applyTimezone :: "(string \<Rightarrow> jsDate \<Rightarrow> zoneParts option) \<Rightarrow> string option \<Rightarrow> jsDate \<Rightarrow> jsDate" where
  "applyTimezone formatToParts timezone dt =
     (case timezone of
        None \<Rightarrow> dt
      | Some tz \<Rightarrow>
          if tz = [] then dt
          else (case formatToParts tz dt of
                  None \<Rightarrow> dt
                | Some parts \<Rightarrow>
                    setHours (setFullYear dt (zoneYear parts) (zoneMonth parts - 1) (zoneDay parts))
                      (zoneHour parts) (zoneMinute parts) 0 0))"

definition includesValue :: "nat list \<Rightarrow> nat \<Rightarrow> bool" where
  "includesValue xs x = (x \<in> set xs)"

text \<open>The search loop, \<^verbatim>\<open>for (let i = 0; i < maxIterations; i++)\<close>, with the iterations left.\<close>

fun search :: "nat \<Rightarrow> cronSchedule \<Rightarrow> jsDate \<Rightarrow> jsDate option" where
  "search 0 schedule dt = None"
| "search (Suc n) schedule dt =
     (if (case month schedule of None \<Rightarrow> False | Some ms \<Rightarrow> \<not> includesValue ms (monthIndex dt + 1))
      then search n schedule
             (setHours (setDate (setMonth dt (monthIndex dt + 1)) 1) 0 0 0 0)
      else if (case dayOfMonth schedule of None \<Rightarrow> False | Some ds \<Rightarrow> \<not> includesValue ds (dateOfMonth dt))
      then search n schedule (setHours (setDate dt (dateOfMonth dt + 1)) 0 0 0 0)
      else if (case dayOfWeek schedule of None \<Rightarrow> False | Some ws \<Rightarrow> \<not> includesValue ws (getDay dt))
      then search n schedule (setHours (setDate dt (dateOfMonth dt + 1)) 0 0 0 0)
      else if (case hour schedule of None \<Rightarrow> False | Some hs \<Rightarrow> \<not> includesValue hs (hours dt))
      then search n schedule (setHours dt (hours dt + 1) 0 0 0)
      else if (case minute schedule of None \<Rightarrow> False | Some mins \<Rightarrow> \<not> includesValue mins (minutes dt))
      then search n schedule (setMinutes dt (minutes dt + 1) 0 0)
      else Some dt)"

definition getNextExecutionTime ::
    "(string \<Rightarrow> jsDate \<Rightarrow> zoneParts option) \<Rightarrow> cronSchedule \<Rightarrow> jsDate \<Rightarrow> string option \<Rightarrow> jsDate option" where
  "getNextExecutionTime formatToParts schedule now timezone =
     (let date = applyTimezone formatToParts timezone now;
          date = setSeconds date 0 0;
          date = setMinutes date (minutes date + 1) (seconds date) (milliseconds date)
      in search 1000 schedule date)"

text \<open>\<^verbatim>\<open>getTime\<close>, in milliseconds since the epoch of the system zone's local clock.\<close>

definition getTime :: "jsDate \<Rightarrow> int" where
  "getTime dt =
     (((daysFromCivil (fullYear dt) (monthIndex dt) (dateOfMonth dt) * 24 + int (hours dt)) * 60
        + int (minutes dt)) * 60 + int (seconds dt)) * 1000 + int (milliseconds dt)"

section \<open>Lists, sets and hashes\<close>

definition listOf :: "string \<Rightarrow> string list io" where
  "listOf k = bnd (readKey k) (\<lambda>v. case v of
       None \<Rightarrow> ret []
     | Some (RList xs) \<Rightarrow> ret xs
     | Some _ \<Rightarrow> throw (WrongType k))"

definition putList :: "string \<Rightarrow> string list \<Rightarrow> unit io" where
  "putList k xs = writeKey k (if xs = [] then None else Some (RList xs))"

definition LPUSH :: "string \<Rightarrow> string \<Rightarrow> unit io" where
  "LPUSH k v = bnd (listOf k) (\<lambda>xs. putList k (v # xs))"

definition RPUSH :: "string \<Rightarrow> string \<Rightarrow> unit io" where
  "RPUSH k v = bnd (listOf k) (\<lambda>xs. putList k (xs @ [v]))"

text \<open>
  \<^verbatim>\<open>LREM key count value\<close> removes the first \<open>count\<close> occurrences of the value, all of
  them when \<open>count\<close> is 0 (the queue never passes a negative count), and replies with
  the number removed.
\<close>

fun removeFirst :: "nat \<Rightarrow> string \<Rightarrow> string list \<Rightarrow> string list" where
  "removeFirst 0 v xs = xs"
| "removeFirst (Suc n) v [] = []"
| "removeFirst (Suc n) v (x # xs) =
     (if x = v then removeFirst n v xs else x # removeFirst (Suc n) v xs)"

definition LREM :: "string \<Rightarrow> nat \<Rightarrow> string \<Rightarrow> nat io" where
  "LREM k count v = bnd (listOf k) (\<lambda>xs.
     let ys = (if count = 0 then filter (\<lambda>x. x \<noteq> v) xs else removeFirst count v xs)
     in seq (putList k ys) (ret (length xs - length ys)))"

text \<open>
  \<^verbatim>\<open>LRANGE key start stop\<close>: both ends inclusive, counted from the head; a negative
  index counts from the tail.
\<close>

definition LRANGE :: "string \<Rightarrow> int \<Rightarrow> int \<Rightarrow> string list io" where
  "LRANGE k start stop = bnd (listOf k) (\<lambda>xs.
     let n = int (length xs);
         s = (if start < 0 then max 0 (n + start) else start);
         e = (if stop < 0 then n + stop else min stop (n - 1))
     in ret (if e < s then [] else take (nat (e - s + 1)) (drop (nat s) xs)))"

definition LLEN :: "string \<Rightarrow> nat io" where
  "LLEN k = bnd (listOf k) (\<lambda>xs. ret (length xs))"

definition setOf :: "string \<Rightarrow> string list io" where
  "setOf k = bnd (readKey k) (\<lambda>v. case v of
       None \<Rightarrow> ret []
     | Some (RSet xs) \<Rightarrow> ret xs
     | Some _ \<Rightarrow> throw (WrongType k))"

definition putSet :: "string \<Rightarrow> string list \<Rightarrow> unit io" where
  "putSet k xs = writeKey k (if xs = [] then None else Some (RSet xs))"

definition SADD :: "string \<Rightarrow> string \<Rightarrow> unit io" where
  "SADD k v = bnd (setOf k) (\<lambda>xs. putSet k (if v \<in> set xs then xs else xs @ [v]))"

definition SREM :: "string \<Rightarrow> string \<Rightarrow> unit io" where
  "SREM k v = bnd (setOf k) (\<lambda>xs. putSet k (filter (\<lambda>x. x \<noteq> v) xs))"

definition SMEMBERS :: "string \<Rightarrow> string list io" where
  "SMEMBERS k = setOf k"

definition hashOf :: "string \<Rightarrow> (string \<times> hval) list io" where
  "hashOf k = bnd (readKey k) (\<lambda>v. case v of
       None \<Rightarrow> ret []
     | Some (RHash h) \<Rightarrow> ret h
     | Some _ \<Rightarrow> throw (WrongType k))"

fun hset :: "(string \<times> hval) list \<Rightarrow> string \<times> hval \<Rightarrow> (string \<times> hval) list" where
  "hset [] fv = [fv]"
| "hset (gu # h) fv = (if fst gu = fst fv then fv # h else gu # hset h fv)"

text \<open>\<^verbatim>\<open>HMSET key field value ...\<close>; \<^verbatim>\<open>HSET\<close> is the same command with one pair.\<close>

definition HMSET :: "string \<Rightarrow> (string \<times> hval) list \<Rightarrow> unit io" where
  "HMSET k fvs = bnd (hashOf k) (\<lambda>h.
     let h' = foldl hset h fvs
     in writeKey k (if h' = [] then None else Some (RHash h')))"

definition HGETALL :: "string \<Rightarrow> (string \<times> hval) list io" where
  "HGETALL k = hashOf k"

text \<open>
  \<^verbatim>\<open>MULTI\<close> and \<^verbatim>\<open>EXEC\<close> bracket a group of commands: Redis queues what is sent in
  between, answers each command with \<^verbatim>\<open>QUEUED\<close>, and runs the group at \<^verbatim>\<open>EXEC\<close>. The
  model has one client and nothing happens between the commands of a group, so a write
  is run where it is sent (also one sent without \<^verbatim>\<open>await\<close>). A read sent inside a group
  learns nothing: its reply is \<^verbatim>\<open>QUEUED\<close>, and running it at \<^verbatim>\<open>EXEC\<close> changes nothing.
\<close>

section \<open>Job\<close>

record job =
  jobIdent :: string
  jobData :: "(string \<times> string) list"
  jobName :: string
  opts :: jobOptions
  progress :: int
  jobDelay :: int
  timestamp :: int
  attemptsMade :: nat
  stacktrace :: "string list"
  returnvalue :: "string option"
  finishedOn :: "int option"
  processedOn :: "int option"
  failedReason :: "string option"
  dependencies :: "string list"

definition noOptions :: jobOptions where
  "noOptions = \<lparr>delay = None, attempts = None, backoff = None, priority = None, lifo = None,
                 jobId = None, dependsOn = None, deadLetter = None\<rparr>"

text \<open>
  \<^verbatim>\<open>parseJob\<close> (utils): \<^verbatim>\<open>Number(hash.f || 0)\<close> for the counters, and
  \<^verbatim>\<open>hash.f ? Number(hash.f) : undefined\<close> for the two dates, which \<^verbatim>\<open>retry\<close> resets to
  the empty string. The job object is the one \<^verbatim>\<open>new Job(queue, jobId)\<close> made, with the
  parsed fields assigned by \<^verbatim>\<open>refresh\<close>.
\<close>

definition numberField :: "(string \<times> hval) list \<Rightarrow> string \<Rightarrow> int" where
  "numberField h f = (case map_of h f of Some (HNum n) \<Rightarrow> n | _ \<Rightarrow> 0)"

definition dateField :: "(string \<times> hval) list \<Rightarrow> string \<Rightarrow> int option" where
  "dateField h f = (case map_of h f of Some (HNum n) \<Rightarrow> Some n | _ \<Rightarrow> None)"

definition parseJob :: "string \<Rightarrow> (string \<times> hval) list \<Rightarrow> job" where
  "parseJob jid h =
     \<lparr>jobIdent = jid,
      jobData = (case map_of h ''data'' of Some (HData d) \<Rightarrow> d | _ \<Rightarrow> []),
      jobName = (case map_of h ''name'' of Some (HStr s) \<Rightarrow> s | _ \<Rightarrow> []),
      opts = (case map_of h ''opts'' of Some (HOpts p) \<Rightarrow> p | _ \<Rightarrow> noOptions),
      progress = numberField h ''progress'',
      jobDelay = numberField h ''delay'',
      timestamp = numberField h ''timestamp'',
      attemptsMade = nat (numberField h ''attemptsMade''),
      stacktrace = (case map_of h ''stacktrace'' of Some (HStrs t) \<Rightarrow> t | _ \<Rightarrow> []),
      returnvalue = (case map_of h ''returnvalue'' of Some (HStr s) \<Rightarrow> Some s | _ \<Rightarrow> None),
      finishedOn = dateField h ''finishedOn'',
      processedOn = dateField h ''processedOn'',
      failedReason = (case map_of h ''failedReason'' of Some (HStr s) \<Rightarrow> Some s | _ \<Rightarrow> None),
      dependencies = (case map_of h ''dependencies'' of Some (HStrs ds) \<Rightarrow> ds | _ \<Rightarrow> [])\<rparr>"

section \<open>Queue\<close>

text \<open>
  The configuration a queue is built from. \<open>configDefaults\<close> is
  \<^verbatim>\<open>config.defaultJobOptions\<close> of the loaded configuration file, which \<^verbatim>\<open>mergeOptions\<close>
  reads; \<open>distributedLock\<close> is false only for \<^verbatim>\<open>distributedLock: false\<close>.
\<close>

record queue =
  queueName :: string
  prefix :: string
  limiter :: "rateLimiterOptions option"
  defaultJobOptions :: "jobOptions option"
  distributedLock :: bool
  defaultDeadLetterOptions :: "deadLetterQueueOptions option"
  configDefaults :: jobOptions

definition keyPrefixOf :: "queue \<Rightarrow> string" where
  "keyPrefixOf q = prefix q @ '':'' @ queueName q"

definition queueKey :: "queue \<Rightarrow> string \<Rightarrow> string" where
  "queueKey q name = getKey (keyPrefixOf q) name"

definition getJobKey :: "queue \<Rightarrow> string \<Rightarrow> string" where
  "getJobKey q jid = keyPrefixOf q @ '':job:'' @ jid"

definition dependentsKey :: "queue \<Rightarrow> string \<Rightarrow> string" where
  "dependentsKey q jid = getJobKey q jid @ '':dependents''"

text \<open>The object spread \<^verbatim>\<open>{...a, ...b}\<close> of two optional option objects.\<close>

definition spread :: "jobOptions option \<Rightarrow> jobOptions option \<Rightarrow> jobOptions" where
  "spread a b =
     (let x = (case a of None \<Rightarrow> noOptions | Some p \<Rightarrow> p);
          y = (case b of None \<Rightarrow> noOptions | Some p \<Rightarrow> p)
      in \<lparr>delay = (case delay y of None \<Rightarrow> delay x | Some v \<Rightarrow> Some v),
          attempts = (case attempts y of None \<Rightarrow> attempts x | Some v \<Rightarrow> Some v),
          backoff = (case backoff y of None \<Rightarrow> backoff x | Some v \<Rightarrow> Some v),
          priority = (case priority y of None \<Rightarrow> priority x | Some v \<Rightarrow> Some v),
          lifo = (case lifo y of None \<Rightarrow> lifo x | Some v \<Rightarrow> Some v),
          jobId = (case jobId y of None \<Rightarrow> jobId x | Some v \<Rightarrow> Some v),
          dependsOn = (case dependsOn y of None \<Rightarrow> dependsOn x | Some v \<Rightarrow> Some v),
          deadLetter = (case deadLetter y of None \<Rightarrow> deadLetter x | Some v \<Rightarrow> Some v)\<rparr>)"

definition mergeOptions :: "jobOptions \<Rightarrow> jobOptions option \<Rightarrow> jobOptions" where
  "mergeOptions configDefault options = spread (Some configDefault) options"

subsection \<open>Reading a job\<close>

definition refresh :: "queue \<Rightarrow> string \<Rightarrow> job io" where
  "refresh q jid = bnd (HGETALL (getJobKey q jid)) (\<lambda>fields.
     if fields = [] then throw (JobNotFound jid) else ret (parseJob jid fields))"

definition getJob :: "queue \<Rightarrow> string \<Rightarrow> job option io" where
  "getJob q jid =
     catch (bnd (EXISTS (getJobKey q jid)) (\<lambda>exists.
              if \<not> exists then ret None
              else bnd (refresh q jid) (\<lambda>j. ret (Some j))))
           (\<lambda>err. ret None)"

text \<open>\<^verbatim>\<open>!depJob.finishedOn\<close>: no date, or the date 0.\<close>

definition unfinished :: "job \<Rightarrow> bool" where
  "unfinished j = (finishedOn j = None \<or> finishedOn j = Some 0)"

text \<open>
  The loop \<^verbatim>\<open>for (const dependency of ...) { const depJob = await getJob(dependency);
  if (depJob && !depJob.finishedOn) { ...; break } }\<close>: false at the first dependency that
  exists and is not finished.
\<close>

fun allDependenciesCompleted :: "queue \<Rightarrow> string list \<Rightarrow> bool io" where
  "allDependenciesCompleted q [] = ret True"
| "allDependenciesCompleted q (dependency # rest) =
     bnd (getJob q dependency) (\<lambda>depJob. case depJob of
         None \<Rightarrow> allDependenciesCompleted q rest
       | Some j \<Rightarrow> if unfinished j then ret False else allDependenciesCompleted q rest)"

text \<open>
  \<^verbatim>\<open>getJob\<close> called between \<^verbatim>\<open>MULTI\<close> and \<^verbatim>\<open>EXEC\<close>, as \<^verbatim>\<open>add\<close> does for the
  dependencies of a new job. The reply to \<^verbatim>\<open>HGETALL\<close> is \<^verbatim>\<open>QUEUED\<close>, which is not an
  array, so \<^verbatim>\<open>refresh\<close> throws and \<^verbatim>\<open>getJob\<close> returns null (as it does when the
  reply to \<^verbatim>\<open>EXISTS\<close> is read as false). The loop over the dependencies is the one
  above, with this \<^verbatim>\<open>getJob\<close>.
\<close>

definition getJobQueued :: "queue \<Rightarrow> string \<Rightarrow> job option io" where
  "getJobQueued q jid =
     catch (bnd (throw (JobNotFound jid) :: job io) (\<lambda>j. ret (Some j)))
           (\<lambda>err. ret None)"

fun allDependenciesCompletedQueued :: "queue \<Rightarrow> string list \<Rightarrow> bool io" where
  "allDependenciesCompletedQueued q [] = ret True"
| "allDependenciesCompletedQueued q (dependency # rest) =
     bnd (getJobQueued q dependency) (\<lambda>depJob. case depJob of
         None \<Rightarrow> allDependenciesCompletedQueued q rest
       | Some j \<Rightarrow> if unfinished j then ret False else allDependenciesCompletedQueued q rest)"

subsection \<open>\<^verbatim>\<open>Job.moveToCompleted\<close>, \<^verbatim>\<open>moveToFailed\<close>, \<^verbatim>\<open>retry\<close>\<close>

definition processDependents :: "queue \<Rightarrow> string \<Rightarrow> unit io" where
  "processDependents q jid =
     bnd (SMEMBERS (dependentsKey q jid)) (\<lambda>dependents.
     forEach dependents (\<lambda>depJobId.
       bnd (getJob q depJobId) (\<lambda>depJob. case depJob of
           None \<Rightarrow> ret ()
         | Some dj \<Rightarrow>
             bnd (allDependenciesCompleted q (dependencies dj)) (\<lambda>completed.
               if completed
               then seq (SREM (queueKey q ''dependency-wait'') depJobId)
                        (LPUSH (queueKey q ''waiting'') depJobId)
               else ret ()))))"

definition moveToCompleted :: "queue \<Rightarrow> job \<Rightarrow> string \<Rightarrow> job io" where
  "moveToCompleted q j result =
     seq (LREM (queueKey q ''active'') 0 (jobIdent j))
    (seq (LPUSH (queueKey q ''completed'') (jobIdent j))
    (bnd dateNow (\<lambda>now.
     seq (HMSET (getJobKey q (jobIdent j))
            [(''finishedOn'', HNum now), (''returnvalue'', HStr result)])
    (seq (emit (JobCompleted (jobIdent j)))
    (seq (processDependents q (jobIdent j))
         (ret (j\<lparr>finishedOn := Some now, returnvalue := Some result\<rparr>)))))))"

text \<open>
  The error is carried by its message. \<^verbatim>\<open>stacktrace.splice(0, length - 10)\<close> keeps the
  last ten entries.
\<close>

definition moveToFailed :: "queue \<Rightarrow> job \<Rightarrow> string \<Rightarrow> string option \<Rightarrow> job io" where
  "moveToFailed q j message reason =
     seq (LREM (queueKey q ''active'') 0 (jobIdent j))
    (seq (LPUSH (queueKey q ''failed'') (jobIdent j))
    (let pushed = stacktrace j @ [message];
         trace = drop (length pushed - 10) pushed;
         why = (case reason of None \<Rightarrow> message | Some r \<Rightarrow> if r = [] then message else r)
     in bnd dateNow (\<lambda>now.
        seq (HMSET (getJobKey q (jobIdent j))
               [(''finishedOn'', HNum now), (''failedReason'', HStr why),
                (''stacktrace'', HStrs trace),
                (''attemptsMade'', HNum (int (attemptsMade j + 1)))])
       (seq (emit (JobFailed (jobIdent j) message))
            (ret (j\<lparr>finishedOn := Some now, failedReason := Some why, stacktrace := trace,
                    attemptsMade := attemptsMade j + 1\<rparr>))))))"

definition retry :: "queue \<Rightarrow> job \<Rightarrow> unit io" where
  "retry q j =
     seq (LREM (queueKey q ''failed'') 0 (jobIdent j))
    (seq (HMSET (getJobKey q (jobIdent j))
            [(''finishedOn'', HStr []), (''failedReason'', HStr []), (''processedOn'', HStr [])])
         (LPUSH (queueKey q ''waiting'') (jobIdent j)))"

subsection \<open>\<^verbatim>\<open>Queue.add\<close>\<close>

text \<open>
  The body of \<^verbatim>\<open>add\<close> after the rate limit: the job hash is written, the job is linked
  to its dependencies, and its id goes to \<^verbatim>\<open>dependency-wait\<close>, to \<^verbatim>\<open>delayed\<close> or to
  \<^verbatim>\<open>waiting\<close>. All of this is sent between \<^verbatim>\<open>MULTI\<close> and \<^verbatim>\<open>EXEC\<close>, the reads of the
  dependencies too: no dependency is seen unfinished there, so the branch to
  \<^verbatim>\<open>dependency-wait\<close> is not taken. (The loop that only logs a missing dependency, and
  the counters of the metrics object, change nothing in Redis and are left out.)
\<close>

definition store :: "queue \<Rightarrow> (string \<times> string) list \<Rightarrow> jobOptions option \<Rightarrow> job io" where
  "store q d options =
     (let merged = mergeOptions (configDefaults q) options
      in bnd (case jobId merged of
                None \<Rightarrow> generateId
              | Some i \<Rightarrow> if i = [] then generateId else ret i) (\<lambda>jid.
         bnd dateNow (\<lambda>stamp.
         let jobKey = getJobKey q jid;
             wanted = (case delay merged of None \<Rightarrow> 0 | Some v \<Rightarrow> v);
             deps = (case dependsOn merged of None \<Rightarrow> [] | Some ds \<Rightarrow> ds);
             finish = bnd (refresh q jid) (\<lambda>j. seq (emit (JobAdded jid (queueName q))) (ret j))
         in seq (HMSET jobKey
                   [(''id'', HStr jid), (''name'', HStr (queueName q)), (''data'', HData d),
                    (''timestamp'', HNum stamp), (''delay'', HNum wanted),
                    (''opts'', HOpts merged), (''attemptsMade'', HNum 0), (''progress'', HNum 0)])
           (bnd (if deps = [] then ret True
                 else seq (HMSET jobKey [(''dependencies'', HStrs deps)])
                     (seq (forEach deps (\<lambda>depId. SADD (dependentsKey q depId) jid))
                          (allDependenciesCompletedQueued q deps))) (\<lambda>completed.
            if \<not> completed
            then seq (SADD (queueKey q ''dependency-wait'') jid) finish
            else seq (if 0 < wanted
                      then seq (ZADD (queueKey q ''delayed'') (stamp + wanted) jid)
                               (emit (JobDelayed jid wanted))
                      else if lifo merged = Some True
                      then RPUSH (queueKey q ''waiting'') jid
                      else LPUSH (queueKey q ''waiting'') jid)
                     finish)))))"

text \<open>
  One activation of \<^verbatim>\<open>add\<close>: either the options of the recursive call
  \<^verbatim>\<open>return this.add(data, opts)\<close> (\<open>Inl\<close>), or the job added. The \<^verbatim>\<open>catch\<close> block emits
  the error and throws it again. The recursive call is returned without \<^verbatim>\<open>await\<close>, so
  its errors are handled by its own activation only.
\<close>

definition addOnce ::
    "queue \<Rightarrow> (string \<times> string) list \<Rightarrow> jobOptions option \<Rightarrow> (jobOptions + job) io" where
  "addOnce q d options =
     catch
       (case limiter q of
          None \<Rightarrow> bnd (store q d options) (\<lambda>j. ret (Inr j))
        | Some limiterOptions \<Rightarrow>
            bnd (check (keyPrefixOf q) (queueName q) limiterOptions (Some d)) (\<lambda>limiterResult.
              if limited limiterResult
              then ret (Inl ((spread (defaultJobOptions q) options)
                               \<lparr>delay := Some (resetIn limiterResult)\<rparr>))
              else bnd (store q d options) (\<lambda>j. ret (Inr j))))
       (\<lambda>err. seq (emit (ErrorEvent err)) (throw err))"

text \<open>
  \<^verbatim>\<open>add\<close> calls itself for as long as the limiter refuses. The first argument bounds
  the number of activations; \<open>None\<close> means that the bound was reached.
\<close>

fun add :: "nat \<Rightarrow> queue \<Rightarrow> (string \<times> string) list \<Rightarrow> jobOptions option
              \<Rightarrow> world \<Rightarrow> ((error + job) \<times> world) option" where
  "add 0 q d options w = None"
| "add (Suc n) q d options w =
     (case addOnce q d options w of
        (Inl err, w') \<Rightarrow> Some (Inl err, w')
      | (Inr (Inl again), w') \<Rightarrow> add n q d (Some again) w'
      | (Inr (Inr j), w') \<Rightarrow> Some (Inr j, w'))"

subsection \<open>\<^verbatim>\<open>Queue.removeJob\<close>\<close>

definition statusLists :: "string list" where
  "statusLists = [''active'', ''waiting'', ''completed'', ''failed'', ''dependency-wait'']"

definition removeJob :: "queue \<Rightarrow> string \<Rightarrow> unit io" where
  "removeJob q jid =
     catch
       (bnd (getJob q jid) (\<lambda>found. case found of
            None \<Rightarrow> ret ()
          | Some j \<Rightarrow>
              seq (forEach statusLists (\<lambda>l.
                     seq (LREM (queueKey q l) 0 jid) (SREM (queueKey q l) jid)))
             (seq (ZREM (queueKey q ''delayed'') jid)
             (bnd (SMEMBERS (dependentsKey q jid)) (\<lambda>dependents.
              seq (forEach dependents (\<lambda>depJobId.
                     bnd (getJob q depJobId) (\<lambda>depJob. case depJob of
                         None \<Rightarrow> ret ()
                       | Some dj \<Rightarrow>
                           bnd (allDependenciesCompleted q
                                  (filter (\<lambda>dependency. dependency \<noteq> jid) (dependencies dj)))
                             (\<lambda>completed.
                               if completed
                               then seq (SREM (queueKey q ''dependency-wait'') depJobId)
                                        (LPUSH (queueKey q ''waiting'') depJobId)
                               else ret ()))))
             (seq (DEL [getJobKey q jid, dependentsKey q jid])
                  (emit (JobRemoved jid))))))))
       (\<lambda>err. ret ())"

subsection \<open>Dead letter queue\<close>

definition deadLetterQueueName :: "queue \<Rightarrow> string" where
  "deadLetterQueueName q =
     queueName q @
     (case defaultDeadLetterOptions q of
        None \<Rightarrow> ''-dead-letter''
      | Some p \<Rightarrow> (case queueSuffix p of
                     None \<Rightarrow> ''-dead-letter''
                   | Some s \<Rightarrow> if s = [] then ''-dead-letter'' else s))"

definition deadLetterQueueKey :: "queue \<Rightarrow> string" where
  "deadLetterQueueKey q = prefix q @ '':'' @ deadLetterQueueName q"

definition removesFromOriginalQueue :: "queue \<Rightarrow> bool" where
  "removesFromOriginalQueue q =
     (case defaultDeadLetterOptions q of
        None \<Rightarrow> True
      | Some p \<Rightarrow> removeFromOriginalQueue p \<noteq> Some False)"

definition moveToDeadLetter :: "queue \<Rightarrow> job \<Rightarrow> string \<Rightarrow> string io" where
  "moveToDeadLetter q j reason =
     (let deadLetterKey = deadLetterQueueKey q @ '':'' @ jobIdent j;
          why = (if reason \<noteq> [] then reason
                 else case failedReason j of None \<Rightarrow> [] | Some r \<Rightarrow> r)
      in bnd dateNow (\<lambda>now.
         seq (HMSET deadLetterKey
                [(''id'', HStr (jobIdent j)), (''originalQueue'', HStr (jobName j)),
                 (''data'', HData (jobData j)), (''failedReason'', HStr why),
                 (''attemptsMade'', HNum (int (attemptsMade j))),
                 (''stacktrace'', HStrs (stacktrace j)), (''timestamp'', HNum now),
                 (''originalTimestamp'', HNum (timestamp j))])
        (seq (LPUSH (deadLetterQueueKey q) (jobIdent j))
        (seq (if removesFromOriginalQueue q
              then seq (LREM (queueKey q ''failed'') 0 (jobIdent j)) (ret ())
              else ret ())
        (seq (emit (JobMovedToDeadLetter (jobIdent j) (deadLetterQueueName q) reason))
             (ret (jobIdent j)))))))"

definition queueMoveToDeadLetter :: "queue \<Rightarrow> string \<Rightarrow> string \<Rightarrow> bool io" where
  "queueMoveToDeadLetter q jid reason =
     bnd (getJob q jid) (\<lambda>found. case found of
         None \<Rightarrow> ret False
       | Some j \<Rightarrow> seq (moveToDeadLetter q j reason) (ret True))"

subsection \<open>Processing under the lock\<close>

text \<open>
  \<^verbatim>\<open>acquire\<close> tries \<^verbatim>\<open>SET key token NX PX duration\<close> up to \<open>retries + 1\<close> times. The
  keyspace of the model has no timers, so a lock lasts until it is released, and the
  timer that extends it is left out.
\<close>

fun acquireLoop :: "nat \<Rightarrow> string \<Rightarrow> string \<Rightarrow> string option io" where
  "acquireLoop 0 lockKey token = ret None"
| "acquireLoop (Suc n) lockKey token =
     bnd (SET_NX lockKey token) (\<lambda>ok.
       if ok then ret (Some token) else acquireLoop n lockKey token)"

definition acquire :: "string \<Rightarrow> string \<Rightarrow> nat \<Rightarrow> string option io" where
  "acquire lockPrefix resource retries =
     bnd generateId (\<lambda>token. acquireLoop (Suc retries) (getLockKey lockPrefix resource) token)"

definition withLock :: "string \<Rightarrow> string \<Rightarrow> nat \<Rightarrow> 'a io \<Rightarrow> 'a io" where
  "withLock lockPrefix resource retries fn =
     bnd (acquire lockPrefix resource retries) (\<lambda>token.
       if token = None \<or> token = Some []
       then throw (LockNotAcquired resource)
       else finally_do fn (seq (release lockPrefix resource (the token)) (ret ())))"

definition processJobWithLock :: "queue \<Rightarrow> string \<Rightarrow> (job \<Rightarrow> 'a io) \<Rightarrow> 'a option io" where
  "processJobWithLock q jid handler =
     (let body = bnd (getJob q jid) (\<lambda>found. case found of
                     None \<Rightarrow> ret None
                   | Some j \<Rightarrow> bnd (handler j) (\<lambda>r. ret (Some r)))
      in if \<not> distributedLock q then body
         else withLock (prefix q @ '':lock'') (''job:'' @ jid) 3 body)"

section \<open>Worker\<close>

text \<open>
  The worker's handler is a parameter: for a job it either throws an error with a
  message (\<open>Inl\<close>) or returns a result (\<open>Inr\<close>). Every call is recorded in \<open>handled\<close>.
  \<open>processing\<close> holds the ids in flight when a pass starts.
\<close>

record worker =
  concurrency :: int
  processing :: "string list"

definition callHandler :: "(job \<Rightarrow> string + string) \<Rightarrow> job \<Rightarrow> string io" where
  "callHandler handler j =
     (\<lambda>w. let w' = w\<lparr>handled := handled w @ [jobIdent j]\<rparr>
          in case handler j of
               Inl message \<Rightarrow> (Inl (HandlerError message), w')
             | Inr result \<Rightarrow> (Inr result, w'))"

fun errorMessage :: "error \<Rightarrow> string" where
  "errorMessage (WrongType k) = ''WRONGTYPE Operation against a key holding the wrong kind of value''"
| "errorMessage (JobNotFound jid) = ''Job '' @ jid @ '' not found''"
| "errorMessage (LockNotAcquired resource) = ''Failed to acquire lock for resource '' @ resource"
| "errorMessage (HandlerError message) = message"
| "errorMessage InvalidPriority = ''Priority level out of range''"

text \<open>
  The retry delay of the \<^verbatim>\<open>catch\<close> block of \<^verbatim>\<open>processJob\<close>. It is computed after
  \<^verbatim>\<open>moveToFailed\<close> has counted the failure, so \<open>attemptsMade\<close> is at least 1 and the
  exponent \<^verbatim>\<open>attemptsMade - 1\<close> is a natural number. Numbers are integers here; the
  doubles of the source agree with them as long as the product is below \<open>2\<^sup>5\<^sup>3\<close>.
\<close>

definition retryDelay :: "job \<Rightarrow> int" where
  "retryDelay j =
     (case backoff (opts j) of
        None \<Rightarrow> 0
      | Some b \<Rightarrow>
          (case backoffType b of
             Fixed \<Rightarrow> backoffDelay b
           | Exponential \<Rightarrow> backoffDelay b * 2 ^ (attemptsMade j - 1)))"

definition useDeadLetter :: "queue \<Rightarrow> job \<Rightarrow> bool" where
  "useDeadLetter q j =
     (case deadLetter (opts j) of
        Some (DeadLetterFlag b) \<Rightarrow> b
      | Some (DeadLetterObject p) \<Rightarrow> True
      | None \<Rightarrow> (case defaultDeadLetterOptions q of
                   None \<Rightarrow> False
                 | Some p \<Rightarrow> enabled p = Some True))"

definition deadLetterMaxRetries :: "queue \<Rightarrow> job \<Rightarrow> nat" where
  "deadLetterMaxRetries q j =
     (let configured =
            (case deadLetter (opts j) of
               Some (DeadLetterObject p) \<Rightarrow> maxRetries p
             | _ \<Rightarrow> (case defaultDeadLetterOptions q of None \<Rightarrow> None | Some p \<Rightarrow> maxRetries p))
      in case configured of None \<Rightarrow> 3 | Some n \<Rightarrow> if n = 0 then 3 else n)"

definition maxAttempts :: "job \<Rightarrow> nat" where
  "maxAttempts j = (case attempts (opts j) of None \<Rightarrow> 1 | Some n \<Rightarrow> if n = 0 then 1 else n)"

text \<open>The \<^verbatim>\<open>catch\<close> block of \<^verbatim>\<open>processJob\<close>.\<close>

definition onFailure :: "queue \<Rightarrow> string \<Rightarrow> error \<Rightarrow> unit io" where
  "onFailure q jid err =
     bnd (getJob q jid) (\<lambda>found. case found of
         None \<Rightarrow> ret ()
       | Some fresh \<Rightarrow>
           bnd (moveToFailed q fresh (errorMessage err) None) (\<lambda>j.
             if useDeadLetter q j \<and> deadLetterMaxRetries q j \<le> attemptsMade j
             then seq (queueMoveToDeadLetter q (jobIdent j)
                         (''Failed after '' @ numText (int (attemptsMade j)) @ '' attempts''))
                      (ret ())
             else if attemptsMade j < maxAttempts j
             then (let wait = retryDelay j
                   in if 0 < wait
                      then bnd dateNow (\<lambda>now. ZADD (queueKey q ''delayed'') (now + wait) jid)
                      else retry q j)
             else ret ()))"

text \<open>
  The callback \<^verbatim>\<open>processJob\<close> hands to \<^verbatim>\<open>processJobWithLock\<close>, and \<^verbatim>\<open>processJob\<close>
  itself. The promise of \<^verbatim>\<open>processJob\<close> is run to its end where it is created.
  (\<^verbatim>\<open>'processJobWithLock' in this.queue\<close> holds for every queue, so the branch without
  it is never taken.)
\<close>

definition runJob :: "queue \<Rightarrow> (job \<Rightarrow> string + string) \<Rightarrow> job \<Rightarrow> string io" where
  "runJob q handler j =
     bnd dateNow (\<lambda>now.
     seq (HMSET (getJobKey q (jobIdent j)) [(''processedOn'', HNum now)])
    (bnd (callHandler handler (j\<lparr>processedOn := Some now\<rparr>)) (\<lambda>result.
     seq (moveToCompleted q (j\<lparr>processedOn := Some now\<rparr>) result)
         (ret result))))"

definition processJob :: "queue \<Rightarrow> (job \<Rightarrow> string + string) \<Rightarrow> string \<Rightarrow> unit io" where
  "processJob q handler jid =
     catch (seq (processJobWithLock q jid (runJob q handler)) (ret ()))
           (\<lambda>err. onFailure q jid err)"

definition moveToActive :: "queue \<Rightarrow> string \<Rightarrow> unit io" where
  "moveToActive q jid =
     seq (LREM (queueKey q ''waiting'') 1 jid) (LPUSH (queueKey q ''active'') jid)"

definition moveDelayedJobsToWaiting :: "queue \<Rightarrow> unit io" where
  "moveDelayedJobsToWaiting q =
     bnd dateNow (\<lambda>now.
     bnd (ZRANGEBYSCORE (queueKey q ''delayed'') 0 now) (\<lambda>jobs.
     forEach jobs (\<lambda>jid.
       seq (ZREM (queueKey q ''delayed'') jid) (LPUSH (queueKey q ''waiting'') jid))))"

text \<open>
  One pass of \<^verbatim>\<open>processJobs\<close>. A promise of \<^verbatim>\<open>processJob\<close> that is rejected has no
  handler; the pass goes on.
\<close>

definition processJobs :: "queue \<Rightarrow> worker \<Rightarrow> (job \<Rightarrow> string + string) \<Rightarrow> unit io" where
  "processJobs q wk handler =
     catch
       (bnd (EXISTS (queueKey q ''paused'')) (\<lambda>isPaused.
          if isPaused then ret ()
          else seq (moveDelayedJobsToWaiting q)
              (let availableSlots = concurrency wk - int (length (processing wk))
               in if availableSlots \<le> 0 then ret ()
                  else bnd (LRANGE (queueKey q ''waiting'') 0 (availableSlots - 1)) (\<lambda>waitingJobs.
                       forEach waitingJobs (\<lambda>jid.
                         if jid \<in> set (processing wk) then ret ()
                         else seq (moveToActive q jid)
                                  (catch (processJob q handler jid) (\<lambda>err. ret ())))))))
       (\<lambda>err. ret ())"

section \<open>PriorityQueue\<close>

record priorityQueue =
  baseQueue :: queue
  priorityLevels :: nat
  defaultPriorityLevel :: int

definition getPriorityKey :: "priorityQueue \<Rightarrow> int \<Rightarrow> string" where
  "getPriorityKey pq level = keyPrefixOf (baseQueue pq) @ '':priority:'' @ numText level"

text \<open>
  \<^verbatim>\<open>PriorityQueue.add\<close> does not merge the configured defaults into the options; it
  adds the priority to them.
\<close>

definition priorityAdd ::
    "priorityQueue \<Rightarrow> (string \<times> string) list \<Rightarrow> jobOptions option \<Rightarrow> job io" where
  "priorityAdd pq d options =
     (let q = baseQueue pq;
          given = (case options of None \<Rightarrow> noOptions | Some p \<Rightarrow> p);
          level = (case priority given of None \<Rightarrow> defaultPriorityLevel pq | Some p \<Rightarrow> p)
      in if level < 0 \<or> int (priorityLevels pq) \<le> level then throw InvalidPriority
         else
         (let merged = given\<lparr>priority := Some level\<rparr>
          in bnd (case jobId merged of
                    None \<Rightarrow> generateId
                  | Some i \<Rightarrow> if i = [] then generateId else ret i) (\<lambda>jid.
             bnd dateNow (\<lambda>stamp.
             let jobKey = getJobKey q jid;
                 wanted = (case delay merged of None \<Rightarrow> 0 | Some v \<Rightarrow> v);
                 deps = (case dependsOn merged of None \<Rightarrow> [] | Some ds \<Rightarrow> ds);
                 finish = bnd (refresh q jid) (\<lambda>j. seq (emit (JobAdded jid (queueName q))) (ret j))
             in seq (HMSET jobKey
                       [(''id'', HStr jid), (''name'', HStr (queueName q)), (''data'', HData d),
                        (''timestamp'', HNum stamp), (''delay'', HNum wanted),
                        (''opts'', HOpts merged), (''attemptsMade'', HNum 0),
                        (''progress'', HNum 0), (''priority'', HNum level)])
               (bnd (if deps = [] then ret True
                     else seq (HMSET jobKey [(''dependencies'', HStrs deps)])
                         (seq (forEach deps (\<lambda>depId. SADD (dependentsKey q depId) jid))
                              (allDependenciesCompletedQueued q deps))) (\<lambda>completed.
                if \<not> completed
                then seq (SADD (queueKey q ''dependency-wait'') jid) finish
                else seq (if 0 < wanted
                          then seq (ZADD (queueKey q ''delayed'') (stamp + wanted) jid)
                                   (emit (JobDelayed jid wanted))
                          else if lifo merged = Some True
                          then RPUSH (getPriorityKey pq level) jid
                          else LPUSH (getPriorityKey pq level) jid)
                         finish))))))"

text \<open>
  The pump: \<^verbatim>\<open>for (let priority = this.priorityLevels - 1; priority >= 0; priority--)\<close>,
  and for a level that holds jobs,
  \<^verbatim>\<open>for (let i = jobIds.length - 1; i >= 0; i--) LPUSH waiting jobIds[i]\<close>.
\<close>

definition moveJobsToWaiting :: "priorityQueue \<Rightarrow> unit io" where
  "moveJobsToWaiting pq =
     forEach (rev [0..<priorityLevels pq]) (\<lambda>level.
       let priorityKey = getPriorityKey pq (int level)
       in bnd (LLEN priorityKey) (\<lambda>len.
            if 0 < len
            then bnd (LRANGE priorityKey 0 (- 1)) (\<lambda>jobIds.
                   if jobIds \<noteq> []
                   then seq (DEL [priorityKey])
                            (forEach (rev jobIds) (\<lambda>jid. LPUSH (queueKey (baseQueue pq) ''waiting'') jid))
                   else ret ())
            else ret ()))"

section \<open>Notions used in the statements\<close>

subsection \<open>Rate limiter\<close>












subsection \<open>Work coordinator\<close>

text \<open>
  What the statement asks of the floating-point share: for \<open>0 < m \<le> c\<close> and \<open>0 \<le> r\<close>
  the quotient \<open>m / c\<close> rounds to at most 1 and its product with \<open>r\<close> to at most \<open>r\<close>,
  so the floor lies between 0 and \<open>r\<close>. \<open>wellFormedRecords\<close>: the ids come from a
  Redis set, so they are distinct, and the counts are not negative.
\<close>

definition floatLike :: "(int \<Rightarrow> int \<Rightarrow> int \<Rightarrow> int) \<Rightarrow> bool" where
  "floatLike floorShare =
     (\<forall>m c r. 0 < m \<and> m \<le> c \<and> 0 \<le> r \<longrightarrow> 0 \<le> floorShare m c r \<and> floorShare m c r \<le> r)"

definition wellFormedRecords :: "(string \<Rightarrow> instanceRecord) \<Rightarrow> string list \<Rightarrow> bool" where
  "wellFormedRecords instanceInfo activeInstances =
     (distinct activeInstances \<and>
      list_all (\<lambda>a. (case maxWorkers (instanceInfo a) of Some m \<Rightarrow> 0 \<le> m | None \<Rightarrow> True)
                 \<and> (case workersAssigned (instanceInfo a) of Some v \<Rightarrow> 0 \<le> v | None \<Rightarrow> True))
        activeInstances)"

subsection \<open>Cron scheduler\<close>

text \<open>
  \<open>validDate\<close>: the fields are those of a date that exists. Between such dates the order
  of the instants is the order of the fields, read most significant first; \<open>fieldKey\<close>
  numbers the field tuples in that order (a day of the month is below 32), and
  \<open>minuteKey\<close> does so down to the minute. \<open>matchesSchedule\<close>: every field of the
  schedule that is not a wildcard lists the date's value.
\<close>

definition validDate :: "jsDate \<Rightarrow> bool" where
  "validDate dt =
     (monthIndex dt < 12 \<and> 1 \<le> dateOfMonth dt
      \<and> dateOfMonth dt \<le> daysInMonth (fullYear dt) (monthIndex dt)
      \<and> hours dt < 24 \<and> minutes dt < 60 \<and> seconds dt < 60 \<and> milliseconds dt < 1000)"

definition dayKey :: "int \<Rightarrow> nat \<Rightarrow> nat \<Rightarrow> int" where
  "dayKey y m d = (y * 12 + int m) * 32 + int d"

definition minuteKey :: "jsDate \<Rightarrow> int" where
  "minuteKey dt =
     (dayKey (fullYear dt) (monthIndex dt) (dateOfMonth dt) * 24 + int (hours dt)) * 60
       + int (minutes dt)"

definition fieldKey :: "jsDate \<Rightarrow> int" where
  "fieldKey dt = (minuteKey dt * 60 + int (seconds dt)) * 1000 + int (milliseconds dt)"

definition matchesSchedule :: "cronSchedule \<Rightarrow> jsDate \<Rightarrow> bool" where
  "matchesSchedule schedule dt =
     ((case month schedule of None \<Rightarrow> True | Some ms \<Rightarrow> includesValue ms (monthIndex dt + 1))
      \<and> (case dayOfMonth schedule of None \<Rightarrow> True | Some ds \<Rightarrow> includesValue ds (dateOfMonth dt))
      \<and> (case dayOfWeek schedule of None \<Rightarrow> True | Some ws \<Rightarrow> includesValue ws (getDay dt))
      \<and> (case hour schedule of None \<Rightarrow> True | Some hs \<Rightarrow> includesValue hs (hours dt))
      \<and> (case minute schedule of None \<Rightarrow> True | Some mins \<Rightarrow> includesValue mins (minutes dt)))"

subsection \<open>Queue\<close>

text \<open>
  What a key holds, read as a list or as a sorted set (nothing, when the key is absent),
  and the queue's state structures: \<open>structures\<close> lists \<^verbatim>\<open>waiting\<close>, \<^verbatim>\<open>active\<close>, \<^verbatim>\<open>completed\<close>,
  \<^verbatim>\<open>failed\<close> and \<^verbatim>\<open>delayed\<close>, in this order.
\<close>

definition listAt :: "world \<Rightarrow> string \<Rightarrow> string list" where
  "listAt w k = (case redis w k of Some (RList xs) \<Rightarrow> xs | _ \<Rightarrow> [])"

definition zsetAt :: "world \<Rightarrow> string \<Rightarrow> (string \<times> int) list" where
  "zsetAt w k = (case redis w k of Some (RZSet zs) \<Rightarrow> zs | _ \<Rightarrow> [])"

definition setAt :: "world \<Rightarrow> string \<Rightarrow> string list" where
  "setAt w k = (case redis w k of Some (RSet xs) \<Rightarrow> xs | _ \<Rightarrow> [])"

definition waitingOf :: "queue \<Rightarrow> world \<Rightarrow> string list" where
  "waitingOf q w = listAt w (queueKey q ''waiting'')"

definition activeOf :: "queue \<Rightarrow> world \<Rightarrow> string list" where
  "activeOf q w = listAt w (queueKey q ''active'')"

definition completedOf :: "queue \<Rightarrow> world \<Rightarrow> string list" where
  "completedOf q w = listAt w (queueKey q ''completed'')"

definition failedOf :: "queue \<Rightarrow> world \<Rightarrow> string list" where
  "failedOf q w = listAt w (queueKey q ''failed'')"

definition delayedOf :: "queue \<Rightarrow> world \<Rightarrow> (string \<times> int) list" where
  "delayedOf q w = zsetAt w (queueKey q ''delayed'')"

definition structures ::
    "queue \<Rightarrow> world \<Rightarrow> string list \<times> string list \<times> string list \<times> string list \<times> (string \<times> int) list" where
  "structures q w = (waitingOf q w, activeOf q w, completedOf q w, failedOf q w, delayedOf q w)"

text \<open>
  \<open>noJobHash q jid w\<close>: the key of the job's hash is absent or holds something that
  is not a hash with fields.
\<close>

definition noJobHash :: "queue \<Rightarrow> string \<Rightarrow> world \<Rightarrow> bool" where
  "noJobHash q jid w =
     (case redis w (getJobKey q jid) of Some (RHash h) \<Rightarrow> h = [] | _ \<Rightarrow> True)"

text \<open>
  A run: operations of one client, one after the other, each run to its end before the
  next starts. \<open>Add\<close> is \<^verbatim>\<open>queue.add\<close> (with room for one resubmission by the
  limiter), \<open>PriorityAdd\<close> is \<^verbatim>\<open>add\<close> of a priority queue on top of the queue,
  \<open>Pump\<close> one call of its \<^verbatim>\<open>moveJobsToWaiting\<close>, \<open>Pass\<close> one pass of the worker's
  \<^verbatim>\<open>processJobs\<close> with the given handler. \<open>performAll\<close> gives the state after the
  run, or \<open>None\<close> when an operation threw or did not end.
\<close>

datatype operation =
    Add "(string \<times> string) list" "jobOptions option"
  | PriorityAdd priorityQueue "(string \<times> string) list" "jobOptions option"
  | Pump priorityQueue
  | Pass worker "job \<Rightarrow> string + string"

fun perform :: "queue \<Rightarrow> operation \<Rightarrow> world \<Rightarrow> world option" where
  "perform q (Add d options) w =
     (case add (Suc (Suc 0)) q d options w of
        Some (Inr j, w') \<Rightarrow> Some w'
      | _ \<Rightarrow> None)"
| "perform q (PriorityAdd pq d options) w =
     (case priorityAdd pq d options w of (Inr j, w') \<Rightarrow> Some w' | (Inl err, w') \<Rightarrow> None)"
| "perform q (Pump pq) w =
     (case moveJobsToWaiting pq w of (Inr u, w') \<Rightarrow> Some w' | (Inl err, w') \<Rightarrow> None)"
| "perform q (Pass wk handler) w =
     (case processJobs q wk handler w of
        (Inr u, w') \<Rightarrow> Some w'
      | (Inl err, w') \<Rightarrow> None)"

fun performAll :: "queue \<Rightarrow> operation list \<Rightarrow> world \<Rightarrow> world option" where
  "performAll q [] w = Some w"
| "performAll q (x # xs) w =
     (case perform q x w of None \<Rightarrow> None | Some w' \<Rightarrow> performAll q xs w')"

section \<open>Concrete states\<close>

definition emptyWorld :: world where
  "emptyWorld =
     \<lparr>redis = (\<lambda>k. None), events = [], handled = [],
      clock = (\<lambda>n. 1000 + 400 * int n), clockReads = 0,
      idgen = (\<lambda>n. CHR ''j'' # replicate n CHR ''x''), idReads = 0,
      random = (\<lambda>n. ''0.'' @ replicate n CHR ''7''), randomReads = 0\<rparr>"

definition lockWorld :: world where
  "lockWorld =
     \<lparr>redis = (\<lambda>k. if k = ''queue:lock:job:7'' then Some (RString ''tok-a'') else None),
      events = [], handled = [], clock = (\<lambda>n. 1000 + int n), clockReads = 0,
      idgen = (\<lambda>n. ''id''), idReads = 0, random = (\<lambda>n. ''0.5''), randomReads = 0\<rparr>"




definition coordInfo :: "string \<Rightarrow> instanceRecord" where
  "coordInfo a =
     (if a = ''i1'' then \<lparr>maxWorkers = Some 10, workersAssigned = Some 3\<rparr>
      else if a = ''i2'' then \<lparr>maxWorkers = None, workersAssigned = Some 4\<rparr>
      else \<lparr>maxWorkers = Some 5, workersAssigned = Some 5\<rparr>)"

definition coordActive :: "string list" where
  "coordActive = [''i1'', ''i2'', ''i3'']"

text \<open>
  A system whose own zone is UTC, asked for the zone \<^verbatim>\<open>America/New_York\<close> in winter:
  the zone's wall clock is five hours behind. \<open>winterIntl\<close> is \<^verbatim>\<open>formatToParts\<close> on
  that system; any other zone name is rejected.
\<close>

definition winterIntl :: "string \<Rightarrow> jsDate \<Rightarrow> zoneParts option" where
  "winterIntl tz dt =
     (if tz = ''America/New_York''
      then Some
        (if 5 \<le> hours dt
         then \<lparr>zoneYear = fullYear dt, zoneMonth = monthIndex dt + 1, zoneDay = dateOfMonth dt,
               zoneHour = hours dt - 5, zoneMinute = minutes dt\<rparr>
         else if 1 < dateOfMonth dt
         then \<lparr>zoneYear = fullYear dt, zoneMonth = monthIndex dt + 1,
               zoneDay = dateOfMonth dt - 1, zoneHour = hours dt + 19, zoneMinute = minutes dt\<rparr>
         else if 0 < monthIndex dt
         then \<lparr>zoneYear = fullYear dt, zoneMonth = monthIndex dt,
               zoneDay = daysInMonth (fullYear dt) (monthIndex dt - 1),
               zoneHour = hours dt + 19, zoneMinute = minutes dt\<rparr>
         else \<lparr>zoneYear = fullYear dt - 1, zoneMonth = 12, zoneDay = 31,
               zoneHour = hours dt + 19, zoneMinute = minutes dt\<rparr>)
      else None)"

definition everyMinute :: cronSchedule where
  "everyMinute = \<lparr>minute = None, hour = None, dayOfMonth = None, month = None, dayOfWeek = None\<rparr>"

definition noonJanuary15 :: jsDate where
  "noonJanuary15 = \<lparr>fullYear = 2025, monthIndex = 0, dateOfMonth = 15, hours = 12, minutes = 0,
                      seconds = 30, milliseconds = 0\<rparr>"

text \<open>
  A queue \<^verbatim>\<open>q\<close> with no options of its own, under the configuration the package ships
  (\<^verbatim>\<open>attempts: 3\<close>, exponential backoff of 1000 ms), and the same queue behind a
  priority queue of three levels. One worker slot; a handler that returns and one that
  throws.
\<close>

definition shippedDefaults :: jobOptions where
  "shippedDefaults =
     noOptions\<lparr>attempts := Some 3,
               backoff := Some \<lparr>backoffType = Exponential, backoffDelay = 1000\<rparr>\<rparr>"

definition plainQueue :: queue where
  "plainQueue =
     \<lparr>queueName = ''q'', prefix = ''queue'', limiter = None, defaultJobOptions = None,
      distributedLock = True, defaultDeadLetterOptions = None,
      configDefaults = shippedDefaults\<rparr>"

definition threeLevels :: priorityQueue where
  "threeLevels = \<lparr>baseQueue = plainQueue, priorityLevels = 3, defaultPriorityLevel = 0\<rparr>"

definition named :: "string \<Rightarrow> jobOptions" where
  "named i = noOptions\<lparr>jobId := Some i\<rparr>"

definition namedLifo :: "string \<Rightarrow> jobOptions" where
  "namedLifo i = noOptions\<lparr>jobId := Some i, lifo := Some True\<rparr>"

definition atLevel :: "string \<Rightarrow> int \<Rightarrow> jobOptions" where
  "atLevel i level = noOptions\<lparr>jobId := Some i, priority := Some level\<rparr>"

definition oneAtATime :: worker where
  "oneAtATime = \<lparr>concurrency = 1, processing = []\<rparr>"

definition succeed :: "job \<Rightarrow> string + string" where
  "succeed j = Inr ''done''"

definition failing :: "job \<Rightarrow> string + string" where
  "failing j = Inl ''boom''"

text \<open>
  The queue with a limiter of one job per second, in a state whose window holds one
  entry of time 4400, with a clock that reads 5000, 6000, 7000, ...; and a caller who
  asks for a delay of one minute.
\<close>

definition limitedQueue :: queue where
  "limitedQueue =
     plainQueue\<lparr>limiter := Some \<lparr>limiterMax = 1, limiterDuration = 1000, keyPrefix = None\<rparr>\<rparr>"

definition limitedWorld :: world where
  "limitedWorld = emptyWorld
     \<lparr>redis := (\<lambda>k. if k = ''queue:q:limit:q'' then Some (RZSet [(''4400:0.1'', 4400)]) else None),
      clock := (\<lambda>n. 5000 + 1000 * int n)\<rparr>"

definition slowOptions :: jobOptions where
  "slowOptions = noOptions\<lparr>jobId := Some ''slow'', delay := Some 60000\<rparr>"

text \<open>
  A state with the job \<^verbatim>\<open>first\<close>, and with the id \<^verbatim>\<open>ghost\<close> in the waiting list but
  no hash of that job.
\<close>

definition ghostWorld :: world where
  "ghostWorld = emptyWorld
     \<lparr>redis := (\<lambda>k. if k = ''queue:q:waiting'' then Some (RList [''ghost'', ''first''])
                     else if k = ''queue:q:job:first'' then Some (RHash [(''id'', HStr ''first'')])
                     else None),
      events := [JobAdded ''first'' ''q'']\<rparr>"

text \<open>
  A state in which the job \<^verbatim>\<open>first\<close>, with the shipped options, has failed once and is
  active again; the states after its handler has thrown a second time and after that
  failure has been recorded; and the job as read back and as recorded.
\<close>

definition onceFailedFields :: "(string \<times> hval) list" where
  "onceFailedFields =
     [(''id'', HStr ''first''), (''opts'', HOpts shippedDefaults), (''attemptsMade'', HNum 1)]"

definition retryWorld :: world where
  "retryWorld = emptyWorld
     \<lparr>redis := (\<lambda>k. if k = ''queue:q:job:first'' then Some (RHash onceFailedFields)
                     else if k = ''queue:q:active'' then Some (RList [''first''])
                     else None)\<rparr>"

definition afterThrow :: world where
  "afterThrow = snd (processJobWithLock plainQueue ''first'' (runJob plainQueue failing) retryWorld)"

definition readBack :: job where
  "readBack = parseJob ''first'' (onceFailedFields @ [(''processedOn'', HNum 1000)])"

definition afterRecord :: world where
  "afterRecord = snd (moveToFailed plainQueue readBack ''boom'' None afterThrow)"

definition recorded :: job where
  "recorded = readBack\<lparr>finishedOn := Some 1400, failedReason := Some ''boom'',
                         stacktrace := [''boom''], attemptsMade := 2\<rparr>"

text \<open>A job that depends on the job \<^verbatim>\<open>first\<close>.\<close>

definition dependent :: "string \<Rightarrow> jobOptions" where
  "dependent i = noOptions\<lparr>jobId := Some i, dependsOn := Some [''first'']\<rparr>"


section \<open>Properties\<close>

lemmas io_defs =
  ret_def throw_def bnd_def seq_def catch_def finally_do_def dateNow_def generateId_def
  mathRandom_def emit_def readKey_def writeKey_def

subsection \<open>Lock release\<close>

lemma release_owned:
  assumes "redis w (getLockKey lockPrefix resource) = Some (RString token)"
  shows "release lockPrefix resource token w =
           (Inr True, w\<lparr>redis := (redis w)(getLockKey lockPrefix resource := None)\<rparr>)"
  using assms by (simp add: release_def GET_def DEL_def io_defs Let_def)

lemma release_other:
  assumes "redis w (getLockKey lockPrefix resource) = Some (RString t)" and "t \<noteq> token"
  shows "release lockPrefix resource token w = (Inr False, w)"
  using assms by (simp add: release_def GET_def DEL_def io_defs Let_def)

lemma release_absent:
  assumes "redis w (getLockKey lockPrefix resource) = None"
  shows "release lockPrefix resource token w = (Inr False, w)"
  using assms by (simp add: release_def GET_def DEL_def io_defs Let_def)

text \<open>
  C5. In every state in which the lock key is absent or holds a string (the only values
  \<^verbatim>\<open>acquire\<close> writes), \<open>release\<close> returns true exactly when the stored value
  is the token, and then the key is deleted and nothing else changes; when the stored
  value differs or the key is absent it returns false and the whole state is unchanged.
\<close>

theorem release_compare_and_delete:
  assumes "redis w (getLockKey lockPrefix resource) = None
           \<or> (\<exists>t. redis w (getLockKey lockPrefix resource) = Some (RString t))"
  shows "release lockPrefix resource token w =
           (if redis w (getLockKey lockPrefix resource) = Some (RString token)
            then (Inr True, w\<lparr>redis := (redis w)(getLockKey lockPrefix resource := None)\<rparr>)
            else (Inr False, w))"
  using assms release_owned release_other release_absent by (metis option.inject rvalue.inject(1))

theorem release_compare_and_delete_witness:
  "fst (release ''queue:lock'' ''job:7'' ''tok-a'' lockWorld) = Inr True
   \<and> redis (snd (release ''queue:lock'' ''job:7'' ''tok-a'' lockWorld)) ''queue:lock:job:7'' = None
   \<and> release ''queue:lock'' ''job:7'' ''tok-b'' lockWorld = (Inr False, lockWorld)
   \<and> release ''queue:lock'' ''job:8'' ''tok-a'' lockWorld = (Inr False, lockWorld)"
proof -
  have k7: "getLockKey ''queue:lock'' ''job:7'' = ''queue:lock:job:7''"
    by (simp add: getLockKey_def)
  have h7: "redis lockWorld (getLockKey ''queue:lock'' ''job:7'') = None
            \<or> (\<exists>t. redis lockWorld (getLockKey ''queue:lock'' ''job:7'') = Some (RString t))"
    by (simp add: k7 lockWorld_def)
  have h8: "redis lockWorld (getLockKey ''queue:lock'' ''job:8'') = None
            \<or> (\<exists>t. redis lockWorld (getLockKey ''queue:lock'' ''job:8'') = Some (RString t))"
    by (simp add: getLockKey_def lockWorld_def)
  have a: "release ''queue:lock'' ''job:7'' ''tok-a'' lockWorld =
             (Inr True, lockWorld\<lparr>redis := (redis lockWorld)(''queue:lock:job:7'' := None)\<rparr>)"
    using release_compare_and_delete [OF h7, of "''tok-a''"] by (simp add: k7 lockWorld_def)
  have b: "release ''queue:lock'' ''job:7'' ''tok-b'' lockWorld = (Inr False, lockWorld)"
    using release_compare_and_delete [OF h7, of "''tok-b''"] by (simp add: k7 lockWorld_def)
  have c: "release ''queue:lock'' ''job:8'' ''tok-a'' lockWorld = (Inr False, lockWorld)"
    using release_compare_and_delete [OF h8, of "''tok-a''"]
    by (simp add: getLockKey_def lockWorld_def)
  show ?thesis by (simp add: a b c)
qed
subsection \<open>Rate limiter\<close>































subsection \<open>Work coordinator\<close>


lemma firstPass_inv:
  assumes "floatLike fs" "\<forall>a \<in> set ids. 0 < maxOf a" "distinct ids" "0 \<le> rw"
    and "rc = (\<Sum>a\<leftarrow>ids. maxOf a)"
    and "firstPass fs maxOf ids (distr, rw, rc) = (distr', rw', rc')"
  shows "0 \<le> rw' \<and> (\<forall>a \<in> set ids. 0 \<le> assigned distr' a \<and> assigned distr' a \<le> maxOf a
                         \<and> distr' a \<noteq> None)
         \<and> (\<forall>a. a \<notin> set ids \<longrightarrow> distr' a = distr a)
         \<and> (\<Sum>a\<leftarrow>ids. assigned distr' a) + rw' = rw"
  using assms(2-)
proof (induction ids arbitrary: distr rw rc)
  case Nil
  then show ?case by simp
next
  case (Cons x xs)
  let ?m = "maxOf x"
  let ?share = "min (fs ?m rc rw) ?m"
  have mpos: "0 < ?m" using Cons.prems(1) by simp
  have "0 \<le> (\<Sum>a\<leftarrow>xs. maxOf a)"
    using Cons.prems(1) by (intro sum_list_nonneg) (auto simp: less_imp_le)
  then have mc: "?m \<le> rc" using Cons.prems(4) by simp
  from assms(1) mpos mc Cons.prems(3) have f: "0 \<le> fs ?m rc rw" "fs ?m rc rw \<le> rw"
    unfolding floatLike_def by blast+
  have sh: "0 \<le> ?share" "?share \<le> ?m" "?share \<le> rw" using f mpos by auto
  have step: "firstPass fs maxOf xs (distr(x \<mapsto> ?share), rw - ?share, rc - ?m) = (distr', rw', rc')"
    using Cons.prems(5) by (simp add: Let_def)
  have ih: "0 \<le> rw' \<and> (\<forall>a \<in> set xs. 0 \<le> assigned distr' a \<and> assigned distr' a \<le> maxOf a
                         \<and> distr' a \<noteq> None)
         \<and> (\<forall>a. a \<notin> set xs \<longrightarrow> distr' a = (distr(x \<mapsto> ?share)) a)
         \<and> (\<Sum>a\<leftarrow>xs. assigned distr' a) + rw' = rw - ?share"
    by (rule Cons.IH[OF _ _ _ _ step]) (use Cons.prems sh in auto)
  have xn: "x \<notin> set xs" using Cons.prems(2) by simp
  then have dx: "distr' x = Some ?share" using ih by simp
  then have ax: "assigned distr' x = ?share" by (simp add: assigned_def)
  show ?case using ih ax dx sh xn by auto
qed


lemma sum_list_upd:
  "distinct xs \<Longrightarrow> a \<in> set xs \<Longrightarrow>
     (\<Sum>b\<leftarrow>xs. (g(a := g a + c)) b) = (\<Sum>b\<leftarrow>xs. g b) + (c::int)"
proof (induction xs)
  case Nil
  then show ?case by simp
next
  case (Cons x xs)
  show ?case
  proof (cases "x = a")
    case True
    then have "a \<notin> set xs" using Cons.prems(1) by simp
    then have "(\<Sum>b\<leftarrow>xs. (g(a := g a + c)) b) = (\<Sum>b\<leftarrow>xs. g b)"
      by (intro arg_cong[where f=sum_list] map_cong) auto
    with True show ?thesis by simp
  next
    case False
    then show ?thesis using Cons by simp
  qed
qed

lemma assigned_upd:
  "assigned (distr(a \<mapsto> v)) = (assigned distr)(a := v)"
  by (auto simp: assigned_def fun_eq_iff)

lemma takeWhile_rotate1_less:
  assumes "ys \<noteq> []" "P (hd ys)" "\<exists>b \<in> set ys. \<not> P b"
  shows "length (takeWhile P (rotate1 ys)) < length (takeWhile P ys)"
proof -
  obtain a rest where ys: "ys = a # rest" using assms(1) by (cases ys) auto
  with assms have pa: "P a" and ex: "\<exists>b \<in> set rest. \<not> P b" by auto
  then obtain b where "b \<in> set rest" "\<not> P b" by blast
  then have "takeWhile P (rest @ [a]) = takeWhile P rest" by (rule takeWhile_append1)
  with pa show ?thesis by (simp add: ys)
qed

lemma rotate_next:
  assumes "i < length ids"
  shows "rotate (if i = length ids - 1 then 0 else i + 1) ids = rotate1 (rotate i ids)"
proof (cases "i = length ids - 1")
  case True
  then have "Suc i = length ids" using assms by simp
  then have "rotate (Suc i) ids = ids" by (simp add: rotate_id)
  then show ?thesis using True by (simp add: rotate_Suc)
next
  case False
  then show ?thesis by (simp add: rotate_Suc)
qed

lemma secondPassLoop_ok:
  assumes "distinct ids"
    and "\<forall>a \<in> set ids. distr a \<noteq> None \<and> assigned distr a \<le> maxOf a"
    and "0 \<le> r" and "r \<le> (\<Sum>a\<leftarrow>ids. maxOf a - assigned distr a)"
    and "i < length ids \<or> r = 0"
  shows "\<exists>d'. secondPassLoop maxOf ids i r distr = Some d'
       \<and> (\<forall>a \<in> set ids. d' a \<noteq> None \<and> assigned distr a \<le> assigned d' a
                           \<and> assigned d' a \<le> maxOf a)
       \<and> (\<forall>a. a \<notin> set ids \<longrightarrow> d' a = distr a)
       \<and> (\<Sum>a\<leftarrow>ids. assigned d' a) = (\<Sum>a\<leftarrow>ids. assigned distr a) + r"
  using assms(2-)
proof (induction "nat r * Suc (length ids)
                  + length (takeWhile (\<lambda>a. \<not> assigned distr a < maxOf a) (rotate i ids))"
       arbitrary: i r distr rule: less_induct)
  case less
  let ?n = "length ids"
  let ?full = "\<lambda>d a. \<not> assigned d a < maxOf a"
  show ?case
  proof (cases "i < ?n \<and> 0 < r")
    case False
    then have "r = 0" using less.prems(2,4) by auto
    then show ?thesis using less.prems(1) by (subst secondPassLoop.simps) simp
  next
    case True
    then have i: "i < ?n" and r: "0 < r" by simp_all
    let ?a = "ids ! i"
    have ain: "?a \<in> set ids" using i by simp
    from less.prems(1) ain obtain v where v: "distr ?a = Some v" and vmax: "v \<le> maxOf ?a"
      by (auto simp: assigned_def split: option.splits)
    have av: "assigned distr ?a = v" using v by (simp add: assigned_def)
    show ?thesis
    proof (cases "v < maxOf ?a")
      case grow: True
      let ?d = "distr(?a \<mapsto> v + 1)"
      let ?r = "r - 1"
      let ?next = "if i = ?n - 1 \<and> 0 < ?r then 0 else i + 1"
      have ad: "assigned ?d = (assigned distr)(?a := assigned distr ?a + 1)"
        by (simp add: assigned_upd av)
      have sumd: "(\<Sum>a\<leftarrow>ids. assigned ?d a) = (\<Sum>a\<leftarrow>ids. assigned distr a) + 1"
        unfolding ad by (rule sum_list_upd[OF assms(1) ain])
      have summ: "(\<Sum>a\<leftarrow>ids. maxOf a - assigned d a) = (\<Sum>a\<leftarrow>ids. maxOf a) - (\<Sum>a\<leftarrow>ids. assigned d a)"
        for d by (simp add: sum_list_subtractf)
      have p1: "\<forall>a \<in> set ids. ?d a \<noteq> None \<and> assigned ?d a \<le> maxOf a"
        using less.prems(1) grow av by (auto simp: ad)
      have p2: "0 \<le> ?r" using r by simp
      have p3: "?r \<le> (\<Sum>a\<leftarrow>ids. maxOf a - assigned ?d a)"
        using less.prems(3) unfolding summ sumd by simp
      have p4: "?next < ?n \<or> ?r = 0" using i r by auto
      have "length (takeWhile (?full ?d) (rotate ?next ids)) \<le> ?n"
        using length_takeWhile_le[of "?full ?d" "rotate ?next ids"] by simp
      moreover have "nat r = Suc (nat ?r)" using r by simp
      ultimately have m: "nat ?r * Suc ?n + length (takeWhile (?full ?d) (rotate ?next ids))
           < nat r * Suc ?n + length (takeWhile (?full distr) (rotate i ids))"
        by simp
      from less.hyps[OF m p1 p2 p3 p4] obtain d' where
        run: "secondPassLoop maxOf ids ?next ?r ?d = Some d'"
        and q1: "\<forall>a \<in> set ids. d' a \<noteq> None \<and> assigned ?d a \<le> assigned d' a \<and> assigned d' a \<le> maxOf a"
        and q2: "\<forall>a. a \<notin> set ids \<longrightarrow> d' a = ?d a"
        and q3: "(\<Sum>a\<leftarrow>ids. assigned d' a) = (\<Sum>a\<leftarrow>ids. assigned ?d a) + ?r"
        by blast
      have unf: "secondPassLoop maxOf ids i r distr = secondPassLoop maxOf ids ?next ?r ?d"
        using i r v grow by (subst secondPassLoop.simps) (simp add: Let_def)
      have "\<forall>a \<in> set ids. assigned distr a \<le> assigned ?d a" by (simp add: ad)
      with q1 have q1': "\<forall>a \<in> set ids. d' a \<noteq> None \<and> assigned distr a \<le> assigned d' a \<and> assigned d' a \<le> maxOf a"
        by force
      have q2': "\<forall>a. a \<notin> set ids \<longrightarrow> d' a = distr a" using q2 ain by auto
      have q3': "(\<Sum>a\<leftarrow>ids. assigned d' a) = (\<Sum>a\<leftarrow>ids. assigned distr a) + r"
        using q3 sumd by simp
      show ?thesis unfolding unf using run q1' q2' q3' by blast
    next
      case nogrow: False
      let ?next = "if i = ?n - 1 then 0 else i + 1"
      have unf: "secondPassLoop maxOf ids i r distr = secondPassLoop maxOf ids ?next r distr"
        using i r v nogrow by (subst secondPassLoop.simps) (simp add: Let_def)
      have ne: "rotate i ids \<noteq> []" using i by auto
      have "ids \<noteq> []" using i by auto
      then have hd: "hd (rotate i ids) = ?a" using i by (simp add: hd_rotate_conv_nth)
      have "\<exists>b \<in> set ids. assigned distr b < maxOf b"
      proof (rule ccontr)
        assume "\<not> ?thesis"
        then have "\<forall>x \<in> set (map (\<lambda>a. maxOf a - assigned distr a) ids). x \<le> 0" by auto
        then have "(\<Sum>a\<leftarrow>ids. maxOf a - assigned distr a) \<le> 0" by (intro sum_list_nonpos) auto
        with less.prems(3) r show False by simp
      qed
      then have ex: "\<exists>b \<in> set (rotate i ids). \<not> ?full distr b" by simp
      have fa: "?full distr (hd (rotate i ids))" unfolding hd using nogrow av by simp
      have "length (takeWhile (?full distr) (rotate ?next ids))
              < length (takeWhile (?full distr) (rotate i ids))"
        unfolding rotate_next[OF i] by (rule takeWhile_rotate1_less[OF ne fa ex])
      then have m: "nat r * Suc ?n + length (takeWhile (?full distr) (rotate ?next ids))
           < nat r * Suc ?n + length (takeWhile (?full distr) (rotate i ids))" by simp
      have p4: "?next < ?n \<or> r = 0" using i by auto
      from less.hyps[OF m less.prems(1,2,3) p4] show ?thesis unfolding unf .
    qed
  qed
qed


lemma calculateWorkerDistribution_ok:
  assumes fl: "floatLike fs" and di: "distinct active"
    and mp: "\<forall>a \<in> set active. 0 < maxWorkersOf dflt info a"
    and tw: "0 \<le> tw" and tm: "tmw = (\<Sum>a\<leftarrow>active. maxWorkersOf dflt info a)"
  shows "\<exists>d. calculateWorkerDistribution fs dflt info active tw tmw = Some d
     \<and> (\<forall>a \<in> set active. 0 \<le> assigned d a \<and> assigned d a \<le> maxWorkersOf dflt info a)
     \<and> (\<Sum>a\<leftarrow>active. assigned d a) = min tw tmw"
proof (cases "active = [] \<or> tw = 0")
  case True
  have "0 \<le> tmw" unfolding tm using mp by (intro sum_list_nonneg) (auto simp: less_imp_le)
  then have "min tw tmw = 0" using True tm tw by auto
  then show ?thesis using True mp
    by (auto simp: calculateWorkerDistribution_def assigned_def less_imp_le)
next
  case False
  let ?maxOf = "maxWorkersOf dflt info"
  let ?tw = "min tw tmw"
  have tmpos: "0 \<le> tmw" unfolding tm using mp by (intro sum_list_nonneg) (auto simp: less_imp_le)
  have twpos: "0 \<le> ?tw" using tw tmpos by simp
  obtain d1 rw rc where fp: "firstPass fs ?maxOf active (Map.empty, ?tw, tmw) = (d1, rw, rc)"
    by (metis prod_cases3)
  from firstPass_inv[OF fl mp di twpos tm fp]
  have rw: "0 \<le> rw"
    and rng: "\<forall>a \<in> set active. 0 \<le> assigned d1 a \<and> assigned d1 a \<le> ?maxOf a \<and> d1 a \<noteq> None"
    and sm: "(\<Sum>a\<leftarrow>active. assigned d1 a) + rw = ?tw" by auto
  have calc: "calculateWorkerDistribution fs dflt info active tw tmw =
     (if rw > 0
      then secondPassLoop ?maxOf
             (sort_key (\<lambda>a. (of_int (assigned d1 a) / of_int (?maxOf a) :: rat))
                (filter (\<lambda>a. assigned d1 a < ?maxOf a) active)) 0 rw d1
      else Some d1)"
    using False by (simp add: calculateWorkerDistribution_def Let_def fp)
  show ?thesis
  proof (cases "rw > 0")
    case False
    then have "rw = 0" using rw by simp
    with sm rng show ?thesis unfolding calc by auto
  next
    case True
    let ?ids = "sort_key (\<lambda>a. (of_int (assigned d1 a) / of_int (?maxOf a) :: rat))
                (filter (\<lambda>a. assigned d1 a < ?maxOf a) active)"
    let ?R = "{a \<in> set active. assigned d1 a < ?maxOf a}"
    have dids: "distinct ?ids" using di by simp
    have sids: "set ?ids = ?R" by auto
    have listsum: "(\<Sum>a\<leftarrow>?ids. g a) = sum g ?R" for g :: "string \<Rightarrow> int"
      using sum_list_distinct_conv_sum_set[OF dids, of g] sids by simp
    have actsum: "(\<Sum>a\<leftarrow>active. g a) = sum g (set active)" for g :: "string \<Rightarrow> int"
      by (rule sum_list_distinct_conv_sum_set[OF di])
    have room: "sum (\<lambda>a. ?maxOf a - assigned d1 a) ?R = sum (\<lambda>a. ?maxOf a - assigned d1 a) (set active)"
      using rng by (intro sum.mono_neutral_left) auto
    have "sum (\<lambda>a. ?maxOf a - assigned d1 a) (set active) = tmw - (?tw - rw)"
      using sm unfolding tm actsum by (simp add: sum_subtractf)
    then have p3: "rw \<le> (\<Sum>a\<leftarrow>?ids. ?maxOf a - assigned d1 a)"
      unfolding listsum room by simp
    have p1: "\<forall>a \<in> set ?ids. d1 a \<noteq> None \<and> assigned d1 a \<le> ?maxOf a"
      using rng by auto
    have "?ids \<noteq> []"
    proof
      assume "?ids = []"
      then have "(\<Sum>a\<leftarrow>?ids. ?maxOf a - assigned d1 a) = 0" by simp
      with p3 True show False by simp
    qed
    then have "0 < length ?ids" by (rule iffD2[OF length_greater_0_conv])
    then have p4: "0 < length ?ids \<or> rw = 0" by (rule disjI1)
    from secondPassLoop_ok[OF dids p1 rw p3 p4] obtain d where
      run: "secondPassLoop ?maxOf ?ids 0 rw d1 = Some d"
      and q1: "\<forall>a \<in> set ?ids. d a \<noteq> None \<and> assigned d1 a \<le> assigned d a \<and> assigned d a \<le> ?maxOf a"
      and q2: "\<forall>a. a \<notin> set ?ids \<longrightarrow> d a = d1 a"
      and q3: "(\<Sum>a\<leftarrow>?ids. assigned d a) = (\<Sum>a\<leftarrow>?ids. assigned d1 a) + rw" by blast
    have same: "a \<notin> ?R \<Longrightarrow> assigned d a = assigned d1 a" for a
      using q2 sids by (simp add: assigned_def)
    have r1: "\<forall>a \<in> set active. 0 \<le> assigned d a \<and> assigned d a \<le> ?maxOf a"
    proof
      fix a assume a: "a \<in> set active"
      show "0 \<le> assigned d a \<and> assigned d a \<le> ?maxOf a"
      proof (cases "a \<in> ?R")
        case True
        then have "a \<in> set ?ids" using sids by blast
        with q1 rng a show ?thesis by force
      next
        case False
        with same rng a show ?thesis by simp
      qed
    qed
    have split: "sum g (set active) = sum g ?R + sum g (set active - ?R)" for g :: "string \<Rightarrow> int"
      using sum.subset_diff[of ?R "set active" g] by auto
    have "sum (assigned d) (set active - ?R) = sum (assigned d1) (set active - ?R)"
      using same by (intro sum.cong) auto
    then have "sum (assigned d) (set active) = sum (assigned d1) (set active) + rw"
      using q3 unfolding listsum split[of "assigned d"] split[of "assigned d1"] by simp
    then have r2: "(\<Sum>a\<leftarrow>active. assigned d a) = ?tw" using sm unfolding actsum by simp
    show ?thesis unfolding calc using True run r1 r2 by simp
  qed
qed

text \<open>
  C6. For active instance records with distinct ids, non-negative \<open>maxWorkers\<close> and
  \<open>workersAssigned\<close> and a positive default budget, and for every floating-point
  share computation that stays between 0 and the remaining target (as the double
  computation does), \<open>calculateWorkerDistribution\<close>, called with the totals
  \<open>coordinateWork\<close> computes, terminates: both passes end and return a distribution
  in which every instance receives between 0 and its \<open>maxWorkers\<close>, and the
  assignments sum to \<open>min (\<Sum> workersAssigned) (\<Sum> maxWorkers)\<close>.
\<close>

theorem coordinator_fair_distribution:
  assumes "floatLike floorShare" "0 < maxWorkersPerInstance"
    and "wellFormedRecords instanceInfo activeInstances"
  shows "\<exists>d. coordinateDistribution floorShare maxWorkersPerInstance instanceInfo activeInstances = Some d
     \<and> (\<forall>a \<in> set activeInstances.
            0 \<le> assigned d a \<and> assigned d a \<le> maxWorkersOf maxWorkersPerInstance instanceInfo a)
     \<and> (\<Sum>a\<leftarrow>activeInstances. assigned d a)
         = min (totalWorkersOf instanceInfo activeInstances)
               (totalMaxWorkersOf maxWorkersPerInstance instanceInfo activeInstances)"
proof -
  have di: "distinct activeInstances" using assms(3) by (simp add: wellFormedRecords_def)
  have mp: "\<forall>a \<in> set activeInstances. 0 < maxWorkersOf maxWorkersPerInstance instanceInfo a"
  proof
    fix a assume "a \<in> set activeInstances"
    with assms(3) have "case maxWorkers (instanceInfo a) of Some m \<Rightarrow> 0 \<le> m | None \<Rightarrow> True"
      by (simp add: wellFormedRecords_def list_all_iff)
    with assms(2) show "0 < maxWorkersOf maxWorkersPerInstance instanceInfo a"
      by (auto simp: maxWorkersOf_def split: option.splits)
  qed
  have tw: "0 \<le> totalWorkersOf instanceInfo activeInstances"
    unfolding totalWorkersOf_def using assms(3)
    by (intro sum_list_nonneg) (auto simp: wellFormedRecords_def list_all_iff split: option.splits)
  show ?thesis
    unfolding coordinateDistribution_def
    by (rule calculateWorkerDistribution_ok[OF assms(1) di mp tw])
       (simp add: totalMaxWorkersOf_def)
qed


lemma exactShare_floatLike: "floatLike exactShare"
  unfolding floatLike_def exactShare_def
proof (intro allI impI)
  fix m c r :: int
  assume a: "0 < m \<and> m \<le> c \<and> 0 \<le> r"
  let ?q = "(of_int m / of_int c :: rat)"
  have q0: "0 \<le> ?q" using a by simp
  have q1: "?q \<le> 1" using a by (simp add: divide_le_eq_1)
  have "?q * of_int r \<le> 1 * of_int r" using q1 a by (intro mult_right_mono) auto
  then have "\<lfloor>?q * of_int r\<rfloor> \<le> \<lfloor>(of_int r :: rat)\<rfloor>" by (intro floor_mono) simp
  moreover have "0 \<le> ?q * of_int r" using q0 a by simp
  ultimately show "0 \<le> \<lfloor>?q * of_int r\<rfloor> \<and> \<lfloor>?q * of_int r\<rfloor> \<le> r" by simp
qed

theorem coordinator_fair_distribution_witness:
  "\<exists>d. coordinateDistribution exactShare 10 coordInfo coordActive = Some d
     \<and> assigned d ''i1'' \<le> 10 \<and> assigned d ''i2'' \<le> 10 \<and> assigned d ''i3'' \<le> 5
     \<and> assigned d ''i1'' + assigned d ''i2'' + assigned d ''i3'' = 12"
proof -
  have w: "wellFormedRecords coordInfo coordActive"
    by (simp add: wellFormedRecords_def coordInfo_def coordActive_def)
  have m: "maxWorkersOf 10 coordInfo ''i1'' = 10" "maxWorkersOf 10 coordInfo ''i2'' = 10"
    "maxWorkersOf 10 coordInfo ''i3'' = 5"
    by (simp_all add: maxWorkersOf_def coordInfo_def)
  have t: "totalWorkersOf coordInfo coordActive = 12"
    "totalMaxWorkersOf 10 coordInfo coordActive = 25"
    by (simp_all add: totalWorkersOf_def totalMaxWorkersOf_def coordInfo_def coordActive_def
        maxWorkersOf_def)
  from coordinator_fair_distribution[OF exactShare_floatLike _ w, of 10]
  show ?thesis unfolding t by (auto simp: coordActive_def m)
qed
subsection \<open>Cron scheduler\<close>

lemma daysInMonth_bounds: "28 \<le> daysInMonth y m" "daysInMonth y m \<le> 31"
  by (simp_all add: daysInMonth_def)

lemma int_divmod: "int (n div k) * int k + int (n mod k) = int n"
  by (metis div_mult_mod_eq of_nat_add of_nat_mult)

lemma makeDay_props:
  assumes "m \<le> 12" "1 \<le> d" "d \<le> 32"
  obtains y' m' d' where "makeDay y m d = (y', m', d')" "m' < 12" "1 \<le> d'"
    "d' \<le> daysInMonth y' m'" "y * 12 + int m \<le> y' * 12 + int m'"
    "dayKey y m d \<le> dayKey y' m' d'"
proof -
  define q where "q = int (m div 12)"
  define y1 where "y1 = y + q"
  define m1 where "m1 = m mod 12"
  have e: "q * 12 + int m1 = int m"
    unfolding m1_def q_def using int_divmod[of m 12] by simp
  have idx: "y1 * 12 + int m1 = y * 12 + int m" unfolding y1_def using e by (simp add: algebra_simps)
  have m1: "m1 < 12" unfolding m1_def by simp
  show ?thesis
  proof (cases "d > daysInMonth y1 m1")
    case False
    have md: "makeDay y m d = (y1, m1, d)"
      using False by (simp add: makeDay_def Let_def y1_def m1_def q_def)
    have k: "dayKey y m d \<le> dayKey y1 m1 d" unfolding dayKey_def by (simp add: idx)
    have i: "y * 12 + int m \<le> y1 * 12 + int m1" using idx by linarith
    have dl: "d \<le> daysInMonth y1 m1" using False by simp
    show ?thesis by (rule that[OF md m1 assms(2) dl i k])
  next
    case True
    define q2 where "q2 = int ((m1 + 1) div 12)"
    define y2 where "y2 = y1 + q2"
    define m2 where "m2 = (m1 + 1) mod 12"
    define d2 where "d2 = d - daysInMonth y1 m1"
    have md: "makeDay y m d = (y2, m2, d2)"
      using True by (simp add: makeDay_def Let_def y1_def m1_def y2_def m2_def d2_def q_def q2_def)
    have e2: "q2 * 12 + int m2 = int m1 + 1"
      unfolding m2_def q2_def using int_divmod[of "m1 + 1" 12] by simp
    have idx2: "y2 * 12 + int m2 = y * 12 + int m + 1"
      unfolding y2_def using e2 idx by (simp add: algebra_simps)
    have m2: "m2 < 12" unfolding m2_def by simp
    have d2a: "1 \<le> d2" unfolding d2_def using True by linarith
    have d2b: "d2 \<le> daysInMonth y2 m2"
      unfolding d2_def
      using assms(3) daysInMonth_bounds(1)[of y1 m1] daysInMonth_bounds(1)[of y2 m2] by linarith
    have d2i: "int d2 = int d - int (daysInMonth y1 m1)" unfolding d2_def using True by linarith
    have b31: "int (daysInMonth y1 m1) \<le> 31" using daysInMonth_bounds(2)[of y1 m1] by linarith
    have k: "dayKey y m d \<le> dayKey y2 m2 d2"
      unfolding dayKey_def using b31 by (simp add: idx2 d2i)
    have i: "y * 12 + int m \<le> y2 * 12 + int m2" using idx2 by linarith
    show ?thesis by (rule that[OF md m2 d2a d2b i k])
  qed
qed

lemma makeDay_valid:
  "m < 12 \<Longrightarrow> d \<le> daysInMonth y m \<Longrightarrow> makeDay y m d = (y, m, d)"
  by (simp add: makeDay_def)

lemma mkDate_props:
  assumes "m \<le> 12" "1 \<le> d" "d + (h + mi div 60) div 24 \<le> 32" "s < 60" "ms < 1000"
  shows "validDate (mkDate y m d h mi s ms)"
    and "seconds (mkDate y m d h mi s ms) = s"
    and "milliseconds (mkDate y m d h mi s ms) = ms"
    and "(dayKey y m d * 24 + int h) * 60 + int mi \<le> minuteKey (mkDate y m d h mi s ms)"
    and "y * 12 + int m \<le> fullYear (mkDate y m d h mi s ms) * 12 + int (monthIndex (mkDate y m d h mi s ms))"
    and "dayKey y m d + int ((h + mi div 60) div 24)
           \<le> dayKey (fullYear (mkDate y m d h mi s ms)) (monthIndex (mkDate y m d h mi s ms))
                (dateOfMonth (mkDate y m d h mi s ms))"
proof -
  define mq where "mq = mi div 60"
  define mr where "mr = mi mod 60"
  define h1 where "h1 = h + mq"
  define c where "c = h1 div 24"
  define hr where "hr = h1 mod 24"
  have dd: "1 \<le> d + c" "d + c \<le> 32"
    using assms(2,3) unfolding c_def h1_def mq_def by simp_all
  from makeDay_props[OF assms(1) dd, of y] obtain y' m' d' where
    md: "makeDay y m (d + c) = (y', m', d')" and v: "m' < 12" "1 \<le> d'" "d' \<le> daysInMonth y' m'"
    and ix: "y * 12 + int m \<le> y' * 12 + int m'"
    and dk: "dayKey y m (d + c) \<le> dayKey y' m' d'" by blast
  have r: "mkDate y m d h mi s ms =
     \<lparr>fullYear = y', monthIndex = m', dateOfMonth = d', hours = hr,
      minutes = mr, seconds = s, milliseconds = ms\<rparr>"
    using md by (simp add: mkDate_def Let_def mq_def mr_def h1_def c_def hr_def)
  have hr: "hr < 24" unfolding hr_def by simp
  have mr: "mr < 60" unfolding mr_def by simp
  show "validDate (mkDate y m d h mi s ms)" using v hr mr assms(4,5) by (simp add: r validDate_def)
  show "seconds (mkDate y m d h mi s ms) = s" by (simp add: r)
  show "milliseconds (mkDate y m d h mi s ms) = ms" by (simp add: r)
  show "y * 12 + int m \<le> fullYear (mkDate y m d h mi s ms) * 12 + int (monthIndex (mkDate y m d h mi s ms))"
    using ix by (simp add: r)
  have a: "int mi = int mq * 60 + int mr"
    unfolding mq_def mr_def using int_divmod[of mi 60] by simp
  have b: "int h1 = int c * 24 + int hr"
    unfolding c_def hr_def using int_divmod[of h1 24] by simp
  have hh: "int h1 = int h + int mq" unfolding h1_def by simp
  have dkc: "dayKey y m (d + c) = dayKey y m d + int c" by (simp add: dayKey_def)
  define K where "K = dayKey y m d"
  define K' where "K' = dayKey y' m' d'"
  have le: "K + int c \<le> K'" using dk dkc unfolding K_def K'_def by simp
  show "dayKey y m d + int ((h + mi div 60) div 24)
           \<le> dayKey (fullYear (mkDate y m d h mi s ms)) (monthIndex (mkDate y m d h mi s ms))
                (dateOfMonth (mkDate y m d h mi s ms))"
    using le unfolding K_def K'_def c_def h1_def mq_def by (simp add: r)
  have lhs: "(K * 24 + int h) * 60 + int mi = ((K + int c) * 24 + int hr) * 60 + int mr"
    using a b hh by (simp add: algebra_simps)
  have "((K + int c) * 24 + int hr) * 60 + int mr \<le> (K' * 24 + int hr) * 60 + int mr"
    using le by simp
  then have "(K * 24 + int h) * 60 + int mi \<le> (K' * 24 + int hr) * 60 + int mr"
    using lhs by simp
  then show "(dayKey y m d * 24 + int h) * 60 + int mi \<le> minuteKey (mkDate y m d h mi s ms)"
    unfolding K_def K'_def by (simp add: r minuteKey_def)
qed

lemma mkDate_inrange:
  assumes "m < 12" "d \<le> daysInMonth y m" "h < 24" "mi < 60"
  shows "mkDate y m d h mi s ms =
     \<lparr>fullYear = y, monthIndex = m, dateOfMonth = d, hours = h, minutes = mi,
      seconds = s, milliseconds = ms\<rparr>"
  using assms by (simp add: mkDate_def makeDay_def Let_def)

lemma validDate_day31: "validDate dt \<Longrightarrow> dateOfMonth dt \<le> 31"
  using daysInMonth_bounds(2)[of "fullYear dt" "monthIndex dt"] by (simp add: validDate_def)

lemma step_minute:
  assumes v: "validDate dt" and s: "s < 60" "ms < 1000"
  shows "validDate (setMinutes dt (minutes dt + 1) s ms)"
    and "seconds (setMinutes dt (minutes dt + 1) s ms) = s"
    and "milliseconds (setMinutes dt (minutes dt + 1) s ms) = ms"
    and "minuteKey dt < minuteKey (setMinutes dt (minutes dt + 1) s ms)"
proof -
  have m: "monthIndex dt \<le> 12" and d1: "1 \<le> dateOfMonth dt" using v by (simp_all add: validDate_def)
  have "minutes dt + 1 \<le> 60" using v by (simp add: validDate_def)
  then have "(minutes dt + 1) div 60 \<le> 60 div 60" by (rule div_le_mono)
  then have "(minutes dt + 1) div 60 \<le> 1" by simp
  moreover have "hours dt \<le> 23" using v by (simp add: validDate_def)
  ultimately have "hours dt + (minutes dt + 1) div 60 \<le> 24" by linarith
  then have "(hours dt + (minutes dt + 1) div 60) div 24 \<le> 1" by simp
  then have c: "dateOfMonth dt + (hours dt + (minutes dt + 1) div 60) div 24 \<le> 32"
    using validDate_day31[OF v] by simp
  note p = mkDate_props[OF m d1 c s, of "fullYear dt"]
  show "validDate (setMinutes dt (minutes dt + 1) s ms)" unfolding setMinutes_def by (rule p(1))
  show "seconds (setMinutes dt (minutes dt + 1) s ms) = s" unfolding setMinutes_def by (rule p(2))
  show "milliseconds (setMinutes dt (minutes dt + 1) s ms) = ms" unfolding setMinutes_def by (rule p(3))
  show "minuteKey dt < minuteKey (setMinutes dt (minutes dt + 1) s ms)"
    unfolding setMinutes_def using p(4) by (simp add: minuteKey_def)
qed

lemma step_hour:
  assumes v: "validDate dt"
  shows "validDate (setHours dt (hours dt + 1) 0 0 0)"
    and "seconds (setHours dt (hours dt + 1) 0 0 0) = 0"
    and "milliseconds (setHours dt (hours dt + 1) 0 0 0) = 0"
    and "minuteKey dt < minuteKey (setHours dt (hours dt + 1) 0 0 0)"
proof -
  have m: "monthIndex dt \<le> 12" and d1: "1 \<le> dateOfMonth dt" and mi: "minutes dt < 60"
    using v by (simp_all add: validDate_def)
  have "hours dt + 1 \<le> 24" using v by (simp add: validDate_def)
  then have "(hours dt + 1 + 0 div 60) div 24 \<le> 1" by simp
  then have c: "dateOfMonth dt + (hours dt + 1 + 0 div 60) div 24 \<le> 32"
    using validDate_day31[OF v] by linarith
  note p = mkDate_props[OF m d1 c, of 0 0 "fullYear dt"]
  show "validDate (setHours dt (hours dt + 1) 0 0 0)" unfolding setHours_def using p(1) by simp
  show "seconds (setHours dt (hours dt + 1) 0 0 0) = 0" unfolding setHours_def using p(2) by simp
  show "milliseconds (setHours dt (hours dt + 1) 0 0 0) = 0" unfolding setHours_def using p(3) by simp
  show "minuteKey dt < minuteKey (setHours dt (hours dt + 1) 0 0 0)"
    unfolding setHours_def using p(4) mi by (simp add: minuteKey_def)
qed

lemma midnight_of_valid:
  assumes "validDate r"
  shows "setHours r 0 0 0 0 = r\<lparr>hours := 0, minutes := 0, seconds := 0, milliseconds := 0\<rparr>"
  using assms unfolding setHours_def
  by (simp add: mkDate_inrange validDate_def)

lemma step_day:
  assumes v: "validDate dt"
  shows "validDate (setHours (setDate dt (dateOfMonth dt + 1)) 0 0 0 0)"
    and "seconds (setHours (setDate dt (dateOfMonth dt + 1)) 0 0 0 0) = 0"
    and "milliseconds (setHours (setDate dt (dateOfMonth dt + 1)) 0 0 0 0) = 0"
    and "minuteKey dt < minuteKey (setHours (setDate dt (dateOfMonth dt + 1)) 0 0 0 0)"
proof -
  define r1 where "r1 = setDate dt (dateOfMonth dt + 1)"
  have m: "monthIndex dt \<le> 12" and h: "hours dt < 24" and mi: "minutes dt < 60"
    and s: "seconds dt < 60" "milliseconds dt < 1000"
    using v by (simp_all add: validDate_def)
  have "(hours dt + minutes dt div 60) div 24 = 0" using h mi by simp
  then have c: "dateOfMonth dt + 1 + (hours dt + minutes dt div 60) div 24 \<le> 32"
    using validDate_day31[OF v] by simp
  have d1: "1 \<le> dateOfMonth dt + 1" by simp
  note p = mkDate_props[OF m d1 c s, of "fullYear dt"]
  have v1: "validDate r1" unfolding r1_def setDate_def by (rule p(1))
  have k1: "dayKey (fullYear dt) (monthIndex dt) (dateOfMonth dt) + 1
             \<le> dayKey (fullYear r1) (monthIndex r1) (dateOfMonth r1)"
    using p(6) unfolding r1_def setDate_def by (simp add: dayKey_def)
  have r: "setHours r1 0 0 0 0 = r1\<lparr>hours := 0, minutes := 0, seconds := 0, milliseconds := 0\<rparr>"
    by (rule midnight_of_valid[OF v1])
  show "validDate (setHours (setDate dt (dateOfMonth dt + 1)) 0 0 0 0)"
    unfolding r1_def[symmetric] r using v1 by (simp add: validDate_def)
  show "seconds (setHours (setDate dt (dateOfMonth dt + 1)) 0 0 0 0) = 0"
    unfolding r1_def[symmetric] r by simp
  show "milliseconds (setHours (setDate dt (dateOfMonth dt + 1)) 0 0 0 0) = 0"
    unfolding r1_def[symmetric] r by simp
  show "minuteKey dt < minuteKey (setHours (setDate dt (dateOfMonth dt + 1)) 0 0 0 0)"
    unfolding r1_def[symmetric] r using k1 h mi by (simp add: minuteKey_def)
qed

lemma step_month:
  assumes v: "validDate dt"
  shows "validDate (setHours (setDate (setMonth dt (monthIndex dt + 1)) 1) 0 0 0 0)"
    and "seconds (setHours (setDate (setMonth dt (monthIndex dt + 1)) 1) 0 0 0 0) = 0"
    and "milliseconds (setHours (setDate (setMonth dt (monthIndex dt + 1)) 1) 0 0 0 0) = 0"
    and "minuteKey dt < minuteKey (setHours (setDate (setMonth dt (monthIndex dt + 1)) 1) 0 0 0 0)"
proof -
  define r1 where "r1 = setMonth dt (monthIndex dt + 1)"
  define r2 where "r2 = setDate r1 1"
  have m: "monthIndex dt + 1 \<le> 12" and h: "hours dt < 24" and mi: "minutes dt < 60"
    and s: "seconds dt < 60" "milliseconds dt < 1000" and d1: "1 \<le> dateOfMonth dt"
    using v by (simp_all add: validDate_def)
  have "(hours dt + minutes dt div 60) div 24 = 0" using h mi by simp
  then have c: "dateOfMonth dt + (hours dt + minutes dt div 60) div 24 \<le> 32"
    using validDate_day31[OF v] by simp
  note p = mkDate_props[OF m d1 c s, of "fullYear dt"]
  have v1: "validDate r1" unfolding r1_def setMonth_def by (rule p(1))
  have ix: "fullYear dt * 12 + int (monthIndex dt) + 1 \<le> fullYear r1 * 12 + int (monthIndex r1)"
    using p(5) unfolding r1_def setMonth_def by simp
  have one: "1 \<le> daysInMonth (fullYear r1) (monthIndex r1)"
    using daysInMonth_bounds(1)[of "fullYear r1" "monthIndex r1"] by simp
  have r2: "r2 = r1\<lparr>dateOfMonth := 1\<rparr>"
    unfolding r2_def setDate_def using v1 one by (simp add: mkDate_inrange validDate_def)
  have v2: "validDate r2" unfolding r2 using v1 one by (simp add: validDate_def)
  have r: "setHours r2 0 0 0 0 = r2\<lparr>hours := 0, minutes := 0, seconds := 0, milliseconds := 0\<rparr>"
    by (rule midnight_of_valid[OF v2])
  show "validDate (setHours (setDate (setMonth dt (monthIndex dt + 1)) 1) 0 0 0 0)"
    unfolding r1_def[symmetric] r2_def[symmetric] r using v2 by (simp add: validDate_def)
  show "seconds (setHours (setDate (setMonth dt (monthIndex dt + 1)) 1) 0 0 0 0) = 0"
    unfolding r1_def[symmetric] r2_def[symmetric] r by simp
  show "milliseconds (setHours (setDate (setMonth dt (monthIndex dt + 1)) 1) 0 0 0 0) = 0"
    unfolding r1_def[symmetric] r2_def[symmetric] r by simp
  have d31: "int (dateOfMonth dt) \<le> 31" using validDate_day31[OF v] by simp
  define A where "A = fullYear dt * 12 + int (monthIndex dt)"
  define B where "B = fullYear r1 * 12 + int (monthIndex r1)"
  have ab: "A + 1 \<le> B" using ix unfolding A_def B_def by simp
  have "(A * 32 + int (dateOfMonth dt)) * 24 + int (hours dt) < (B * 32 + 1) * 24"
    using ab d31 h by simp
  then have "((A * 32 + int (dateOfMonth dt)) * 24 + int (hours dt)) * 60 + int (minutes dt)
               < (B * 32 + 1) * 24 * 60"
    using mi by simp
  moreover have fin: "setHours r2 0 0 0 0 =
      r1\<lparr>dateOfMonth := 1, hours := 0, minutes := 0, seconds := 0, milliseconds := 0\<rparr>"
    using r by (simp add: r2)
  ultimately show "minuteKey dt < minuteKey (setHours (setDate (setMonth dt (monthIndex dt + 1)) 1) 0 0 0 0)"
    unfolding r1_def[symmetric] r2_def[symmetric] fin A_def B_def
    by (simp add: minuteKey_def dayKey_def)
qed

lemma search_later:
  assumes "validDate dt" "seconds dt = 0" "milliseconds dt = 0"
    and "search n schedule dt = Some r"
  shows "minuteKey dt \<le> minuteKey r \<and> validDate r \<and> seconds r = 0 \<and> milliseconds r = 0
         \<and> matchesSchedule schedule r"
  using assms
proof (induction n arbitrary: dt)
  case 0
  then show ?case by simp
next
  case (Suc n)
  note v = Suc.prems(1)
  let ?cm = "case month schedule of None \<Rightarrow> False | Some ms \<Rightarrow> \<not> includesValue ms (monthIndex dt + 1)"
  let ?cd = "case dayOfMonth schedule of None \<Rightarrow> False | Some ds \<Rightarrow> \<not> includesValue ds (dateOfMonth dt)"
  let ?cw = "case dayOfWeek schedule of None \<Rightarrow> False | Some ws \<Rightarrow> \<not> includesValue ws (getDay dt)"
  let ?ch = "case hour schedule of None \<Rightarrow> False | Some hs \<Rightarrow> \<not> includesValue hs (hours dt)"
  let ?ci = "case minute schedule of None \<Rightarrow> False | Some mins \<Rightarrow> \<not> includesValue mins (minutes dt)"
  consider (m) "?cm" | (d) "\<not> ?cm" "?cd" | (w) "\<not> ?cm" "\<not> ?cd" "?cw"
    | (h) "\<not> ?cm" "\<not> ?cd" "\<not> ?cw" "?ch" | (i) "\<not> ?cm" "\<not> ?cd" "\<not> ?cw" "\<not> ?ch" "?ci"
    | (ok) "\<not> ?cm" "\<not> ?cd" "\<not> ?cw" "\<not> ?ch" "\<not> ?ci" by blast
  then show ?case
  proof cases
    case m
    let ?n = "setHours (setDate (setMonth dt (monthIndex dt + 1)) 1) 0 0 0 0"
    from Suc.prems(4) m have "search n schedule ?n = Some r" by simp
    from Suc.IH[OF step_month(1-3)[OF v] this] step_month(4)[OF v] show ?thesis by simp
  next
    case d
    let ?n = "setHours (setDate dt (dateOfMonth dt + 1)) 0 0 0 0"
    from Suc.prems(4) d have "search n schedule ?n = Some r" by simp
    from Suc.IH[OF step_day(1-3)[OF v] this] step_day(4)[OF v] show ?thesis by simp
  next
    case w
    let ?n = "setHours (setDate dt (dateOfMonth dt + 1)) 0 0 0 0"
    from Suc.prems(4) w have "search n schedule ?n = Some r" by simp
    from Suc.IH[OF step_day(1-3)[OF v] this] step_day(4)[OF v] show ?thesis by simp
  next
    case h
    let ?n = "setHours dt (hours dt + 1) 0 0 0"
    from Suc.prems(4) h have "search n schedule ?n = Some r" by simp
    from Suc.IH[OF step_hour(1-3)[OF v] this] step_hour(4)[OF v] show ?thesis by simp
  next
    case i
    let ?n = "setMinutes dt (minutes dt + 1) 0 0"
    have z: "(0::nat) < 60" "(0::nat) < 1000" by simp_all
    from Suc.prems(4) i have "search n schedule ?n = Some r" by simp
    from Suc.IH[OF step_minute(1-3)[OF v z] this] step_minute(4)[OF v z] show ?thesis by simp
  next
    case ok
    with Suc.prems(4) have "r = dt" by simp
    with ok Suc.prems(1-3) show ?thesis
      by (simp add: matchesSchedule_def split: option.splits)
  qed
qed

lemma next_without_timezone:
  assumes v: "validDate now"
    and r: "getNextExecutionTime formatToParts schedule now None = Some r"
  shows "fieldKey now < fieldKey r \<and> validDate r \<and> matchesSchedule schedule r"
proof -
  define d1 where "d1 = setSeconds now 0 0"
  define d2 where "d2 = setMinutes d1 (minutes d1 + 1) (seconds d1) (milliseconds d1)"
  have v1: "validDate d1" using v by (simp add: d1_def setSeconds_def validDate_def)
  have z: "seconds d1 < 60" "milliseconds d1 < 1000" by (simp_all add: d1_def setSeconds_def)
  have s1: "seconds d1 = 0" "milliseconds d1 = 0" by (simp_all add: d1_def setSeconds_def)
  have k1: "minuteKey d1 = minuteKey now" by (simp add: d1_def setSeconds_def minuteKey_def)
  note p = step_minute[OF v1 z]
  have v2: "validDate d2" and s2: "seconds d2 = 0" "milliseconds d2 = 0"
    and k2: "minuteKey d1 < minuteKey d2"
    using p s1 unfolding d2_def by simp_all
  have "search 1000 schedule d2 = Some r"
    using r by (simp add: getNextExecutionTime_def applyTimezone_def Let_def d1_def d2_def)
  from search_later[OF v2 s2 this]
  have k: "minuteKey d2 \<le> minuteKey r" and vr: "validDate r" and sr: "seconds r = 0" "milliseconds r = 0"
    and mt: "matchesSchedule schedule r" by simp_all
  have "minuteKey now + 1 \<le> minuteKey r" using k k2 k1 by simp
  then have "(minuteKey now + 1) * 60000 \<le> minuteKey r * 60000" by simp
  moreover have "int (seconds now) * 1000 + int (milliseconds now) < 60000"
    using v by (simp add: validDate_def)
  ultimately have "fieldKey now < fieldKey r" by (simp add: fieldKey_def sr algebra_simps)
  with vr mt show ?thesis by simp
qed

lemma next_again_without_timezone:
  assumes "validDate now"
    and "getNextExecutionTime formatToParts schedule now None = Some r"
    and "getNextExecutionTime formatToParts schedule r None = Some r'"
  shows "fieldKey now < fieldKey r \<and> fieldKey r < fieldKey r' \<and> matchesSchedule schedule r'"
proof -
  from next_without_timezone[OF assms(1,2)]
  have a: "fieldKey now < fieldKey r" and v: "validDate r" by simp_all
  from next_without_timezone[OF v assms(3)] a show ?thesis by simp
qed

lemma search_found:
  "matchesSchedule schedule dt \<Longrightarrow> search (Suc n) schedule dt = Some dt"
  by (simp add: matchesSchedule_def split: option.splits)

text \<open>
  C8. Cron next fire time. Without a time zone the time computed from a valid date is
  strictly later than the start and meets every field of the schedule that is not a
  wildcard (\<open>next_without_timezone\<close>), and computing again from it is strictly later
  again (\<open>next_again_without_timezone\<close>). With a time zone the start is first rewritten
  to the zone's wall clock, read as a local time of the system. On a UTC system, for the
  schedule \<^verbatim>\<open>* * * * *\<close>, the zone \<^verbatim>\<open>America/New_York\<close> and the start 15 January
  2025, 12:00:30, the scheduler answers 07:01:00 of the same day, which is earlier than
  the start.
\<close>

theorem next_execution_with_timezone_not_later:
  "getNextExecutionTime winterIntl everyMinute noonJanuary15 (Some ''America/New_York'')
     = Some \<lparr>fullYear = 2025, monthIndex = 0, dateOfMonth = 15, hours = 7, minutes = 1,
             seconds = 0, milliseconds = 0\<rparr>
   \<and> getTime \<lparr>fullYear = 2025, monthIndex = 0, dateOfMonth = 15, hours = 7, minutes = 1,
               seconds = 0, milliseconds = 0\<rparr> < getTime noonJanuary15"
proof -
  let ?z = "\<lparr>fullYear = 2025, monthIndex = 0, dateOfMonth = 15, hours = 7, minutes = 0,
             seconds = 0, milliseconds = 0\<rparr>"
  let ?r = "\<lparr>fullYear = 2025, monthIndex = 0, dateOfMonth = 15, hours = 7, minutes = 1,
             seconds = 0, milliseconds = 0\<rparr>"
  have a: "applyTimezone winterIntl (Some ''America/New_York'') noonJanuary15 = ?z"
    by (simp add: applyTimezone_def winterIntl_def noonJanuary15_def setHours_def setFullYear_def
          mkDate_def makeDay_def daysInMonth_def Let_def)
  have b: "setMinutes (setSeconds ?z 0 0) (minutes (setSeconds ?z 0 0) + 1)
             (seconds (setSeconds ?z 0 0)) (milliseconds (setSeconds ?z 0 0)) = ?r"
    by (simp add: setSeconds_def setMinutes_def mkDate_def makeDay_def daysInMonth_def Let_def)
  have m: "matchesSchedule everyMinute ?r" by (simp add: matchesSchedule_def everyMinute_def)
  have s: "search (Suc 999) everyMinute ?r = Some ?r" by (rule search_found[OF m])
  have g: "getNextExecutionTime winterIntl everyMinute noonJanuary15 (Some ''America/New_York'') = Some ?r"
    unfolding getNextExecutionTime_def Let_def a b using s by simp
  have t: "getTime ?r < getTime noonJanuary15"
    by (simp add: getTime_def noonJanuary15_def daysFromCivil_def Let_def)
  from g t show ?thesis by simp
qed

subsection \<open>Queue, job and worker\<close>

lemmas redis_defs =
  GET_def SET_def SET_NX_def EXISTS_def DEL_def zsetOf_def putZSet_def ZADD_def ZREM_def
  ZCARD_def ZRANGEBYSCORE_def ZREMRANGEBYSCORE_def ZRANGE_first_def zsorted_def zbefore_def
  listOf_def
  putList_def LPUSH_def RPUSH_def LREM_def LRANGE_def LLEN_def setOf_def putSet_def SADD_def
  SREM_def SMEMBERS_def hashOf_def HMSET_def HGETALL_def

lemmas queue_defs =
  keyPrefixOf_def queueKey_def getKey_def getJobKey_def dependentsKey_def spread_def
  mergeOptions_def noOptions_def refresh_def getJob_def parseJob_def numberField_def
  dateField_def unfinished_def processDependents_def moveToCompleted_def moveToFailed_def
  retry_def store_def addOnce_def getLockKey_def release_def acquire_def withLock_def
  processJobWithLock_def callHandler_def retryDelay_def useDeadLetter_def
  deadLetterMaxRetries_def maxAttempts_def onFailure_def runJob_def processJob_def
  moveToActive_def moveDelayedJobsToWaiting_def processJobs_def getPriorityKey_def
  getJobQueued_def
  priorityAdd_def moveJobsToWaiting_def removeJob_def statusLists_def numText_def
  digitChar_def rateLimit_def rateLimitKey_def tokenMember_def check_def
  limiterIdentifier_def

lemmas run_defs =
  listAt_def zsetAt_def setAt_def waitingOf_def activeOf_def completedOf_def failedOf_def delayedOf_def
  structures_def emptyWorld_def shippedDefaults_def plainQueue_def
  threeLevels_def named_def namedLifo_def atLevel_def oneAtATime_def succeed_def failing_def
  limitedQueue_def limitedWorld_def slowOptions_def ghostWorld_def dependent_def

lemma acquireLoop_numeral:
  "acquireLoop (numeral n) lockKey token =
     bnd (SET_NX lockKey token) (\<lambda>ok.
       if ok then ret (Some token) else acquireLoop (pred_numeral n) lockKey token)"
  by (simp add: numeral_eq_Suc)

lemma bnd_InrE:
  assumes "bnd m f w = (Inr y, w')"
  obtains x w1 where "m w = (Inr x, w1)" "f x w1 = (Inr y, w')"
  using assms by (auto simp: bnd_def split: prod.splits sum.splits)

lemma seq_InrE:
  assumes "seq m k w = (Inr y, w')"
  obtains x w1 where "m w = (Inr x, w1)" "k w1 = (Inr y, w')"
  using assms by (auto simp: seq_def bnd_def split: prod.splits sum.splits)

text \<open>
  C1. One state per job. The job \<^verbatim>\<open>first\<close> is added under the shipped configuration
  (three attempts, exponential backoff of 1000 ms) and a worker pass hands it to a
  handler that throws. \<^verbatim>\<open>moveToFailed\<close> pushes the id to \<^verbatim>\<open>failed\<close>, and the retry
  branch for a positive delay adds it to \<^verbatim>\<open>delayed\<close> and leaves \<^verbatim>\<open>failed\<close> as it is
  (\<^verbatim>\<open>Job.retry\<close>, the branch for no delay, removes the id from \<^verbatim>\<open>failed\<close> first). After
  the pass the id is in \<^verbatim>\<open>failed\<close> and in \<^verbatim>\<open>delayed\<close>, two state structures at once.
\<close>

theorem failed_and_delayed:
  "map_option (structures plainQueue)
     (performAll plainQueue [Add [] (Some (named ''first'')), Pass oneAtATime failing] emptyWorld)
   = Some ([], [], [], [''first''], [(''first'', 3600)])"
  by (simp add: run_defs io_defs redis_defs queue_defs acquireLoop_numeral Let_def)

text \<open>
  C2. Order of the priority pump. On a priority queue of three levels the job \<^verbatim>\<open>low\<close> is
  added at level 0 and the job \<^verbatim>\<open>high\<close> at level 2. One pass of the pump moves level 2
  to the head of \<^verbatim>\<open>waiting\<close> first and level 0 to the head after it, so \<^verbatim>\<open>waiting\<close>
  reads \<^verbatim>\<open>low\<close>, \<^verbatim>\<open>high\<close>; the worker takes its jobs from the head and hands \<^verbatim>\<open>low\<close>
  to the handler: the job of the lower priority is dispatched before the job of the higher
  priority moved in the same pass.
\<close>

theorem pump_serves_lowest_first:
  "map_option (waitingOf plainQueue)
     (performAll plainQueue
        [PriorityAdd threeLevels [] (Some (atLevel ''low'' 0)),
         PriorityAdd threeLevels [] (Some (atLevel ''high'' 2)),
         Pump threeLevels] emptyWorld)
   = Some [''low'', ''high'']
   \<and> map_option handled
     (performAll plainQueue
        [PriorityAdd threeLevels [] (Some (atLevel ''low'' 0)),
         PriorityAdd threeLevels [] (Some (atLevel ''high'' 2)),
         Pump threeLevels,
         Pass oneAtATime succeed] emptyWorld)
   = Some [''low'']"
  by (simp add: run_defs io_defs redis_defs queue_defs acquireLoop_numeral Let_def upt_rec)

text \<open>
  C3. Submission order on a plain queue. The jobs \<^verbatim>\<open>first\<close> and \<^verbatim>\<open>second\<close> are added
  in this order, with no delay, no dependencies and no lifo flag. \<^verbatim>\<open>add\<close> pushes each id
  at the head of \<^verbatim>\<open>waiting\<close> and the worker takes its jobs from the head: \<^verbatim>\<open>waiting\<close>
  reads \<^verbatim>\<open>second\<close>, \<^verbatim>\<open>first\<close>, and the pass hands \<^verbatim>\<open>second\<close>, the job added last, to the
  handler. With the lifo flag the ids are pushed at the tail: \<^verbatim>\<open>waiting\<close> reads
  \<^verbatim>\<open>first\<close>, \<^verbatim>\<open>second\<close>, and the pass hands \<^verbatim>\<open>first\<close> to the handler.
\<close>

theorem default_submission_is_last_in_first_out:
  "map_option (waitingOf plainQueue)
     (performAll plainQueue
        [Add [] (Some (named ''first'')), Add [] (Some (named ''second''))] emptyWorld)
   = Some [''second'', ''first'']
   \<and> map_option handled
     (performAll plainQueue
        [Add [] (Some (named ''first'')), Add [] (Some (named ''second'')),
         Pass oneAtATime succeed] emptyWorld)
   = Some [''second'']
   \<and> map_option (waitingOf plainQueue)
     (performAll plainQueue
        [Add [] (Some (namedLifo ''first'')), Add [] (Some (namedLifo ''second''))] emptyWorld)
   = Some [''first'', ''second'']
   \<and> map_option handled
     (performAll plainQueue
        [Add [] (Some (namedLifo ''first'')), Add [] (Some (namedLifo ''second'')),
         Pass oneAtATime succeed] emptyWorld)
   = Some [''first'']"
  by (simp add: run_defs io_defs redis_defs queue_defs acquireLoop_numeral Let_def)

text \<open>
  A job added with a dependency that is not finished: the dependency is read inside the
  transaction, so the job is not parked in \<^verbatim>\<open>dependency-wait\<close>; it goes to \<^verbatim>\<open>waiting\<close>.
\<close>

lemma dependent_job_goes_to_waiting:
  "map_option (waitingOf plainQueue)
     (performAll plainQueue
        [Add [] (Some (named ''first'')), Add [] (Some (dependent ''second''))] emptyWorld)
   = Some [''second'', ''first'']
   \<and> map_option (\<lambda>w. setAt w ''queue:q:dependency-wait'')
     (performAll plainQueue
        [Add [] (Some (named ''first'')), Add [] (Some (dependent ''second''))] emptyWorld)
   = Some []"
  by (simp add: run_defs io_defs redis_defs queue_defs Let_def)

lemma moveToFailed_result:
  assumes "moveToFailed q j message reason w = (Inr j', w')"
  shows "attemptsMade j' = attemptsMade j + 1 \<and> opts j' = opts j"
  using assms unfolding moveToFailed_def Let_def
  by (elim seq_InrE bnd_InrE) (auto simp: ret_def)

text \<open>
  The \<^verbatim>\<open>catch\<close> block of \<^verbatim>\<open>processJob\<close>, when the failure has been recorded, the job is
  not sent to the dead letter queue and has attempts left: with a positive delay it reads
  the clock and adds the job to \<^verbatim>\<open>delayed\<close> with the score \<open>now + delay\<close>, otherwise it
  calls \<^verbatim>\<open>retry\<close>.
\<close>

lemma onFailure_schedules_retry:
  assumes "redis w (getJobKey q jid) = Some (RHash h)" and "h \<noteq> []"
    and "moveToFailed q (parseJob jid h) (errorMessage err) None w = (Inr j', w')"
    and "\<not> (useDeadLetter q j' \<and> deadLetterMaxRetries q j' \<le> attemptsMade j')"
    and "attemptsMade j' < maxAttempts j'"
  shows "onFailure q jid err w =
           (if 0 < retryDelay j'
            then ZADD (queueKey q ''delayed'') (clock w' (clockReads w') + retryDelay j') jid
                   (w'\<lparr>clockReads := Suc (clockReads w')\<rparr>)
            else retry q j' w')"
  using assms
  by (auto simp add: onFailure_def getJob_def refresh_def EXISTS_def HGETALL_def hashOf_def
        io_defs Let_def)

text \<open>
  C7. Backoff delay. Let the processing of a job under \<^verbatim>\<open>processJob\<close> throw, let
  \<^verbatim>\<open>moveToFailed\<close> record the failure of the job as read back from its hash, whose options
  carry a backoff, and let the worker get to its retry branch (the job is not sent to the
  dead letter queue and has attempts left). Then the count of attempts has grown by one,
  to \<open>k\<close>, and \<^verbatim>\<open>processJob\<close> goes on with the delay \<open>base * 2 ^ (k - 1)\<close> for the
  exponential type and \<open>base\<close> for the fixed type: when the delay is positive the job is
  added to \<^verbatim>\<open>delayed\<close> with the score \<open>now + delay\<close>, and otherwise it is retried at once.
\<close>

theorem backoff_delay_formula:
  assumes "processJobWithLock q jid (runJob q handler) w0 = (Inl err, w)"
    and "redis w (getJobKey q jid) = Some (RHash h)" and "h \<noteq> []"
    and "moveToFailed q (parseJob jid h) (errorMessage err) None w = (Inr j', w')"
    and "backoff (opts (parseJob jid h)) = Some b"
    and "\<not> (useDeadLetter q j' \<and> deadLetterMaxRetries q j' \<le> attemptsMade j')"
    and "attemptsMade j' < maxAttempts j'"
  shows "attemptsMade j' = attemptsMade (parseJob jid h) + 1
         \<and> processJob q handler jid w0 =
             (let wait = (case backoffType b of
                            Exponential \<Rightarrow> backoffDelay b * 2 ^ (attemptsMade j' - 1)
                          | Fixed \<Rightarrow> backoffDelay b)
              in if 0 < wait
                 then ZADD (queueKey q ''delayed'') (clock w' (clockReads w') + wait) jid
                        (w'\<lparr>clockReads := Suc (clockReads w')\<rparr>)
                 else retry q j' w')"
proof -
  note r = moveToFailed_result[OF assms(4)]
  have d: "retryDelay j' =
             (case backoffType b of
                Exponential \<Rightarrow> backoffDelay b * 2 ^ (attemptsMade j' - 1)
              | Fixed \<Rightarrow> backoffDelay b)"
    using r assms(5) by (simp add: retryDelay_def split: backoffType.splits)
  have p: "processJob q handler jid w0 = onFailure q jid err w"
    using assms(1) by (simp add: processJob_def catch_def seq_def bnd_def)
  show ?thesis
    unfolding p onFailure_schedules_retry[OF assms(2,3,4,6,7)] Let_def d[symmetric]
    using r by simp
qed

theorem backoff_delay_formula_witness:
  "processJobWithLock plainQueue ''first'' (runJob plainQueue failing) retryWorld
     = (Inl (HandlerError ''boom''), afterThrow)
   \<and> redis afterThrow (getJobKey plainQueue ''first'')
       = Some (RHash (onceFailedFields @ [(''processedOn'', HNum 1000)]))
   \<and> moveToFailed plainQueue readBack ''boom'' None afterThrow = (Inr recorded, afterRecord)
   \<and> backoff (opts readBack) = Some \<lparr>backoffType = Exponential, backoffDelay = 1000\<rparr>
   \<and> attemptsMade recorded = 2 \<and> maxAttempts recorded = 3
   \<and> processJob plainQueue failing ''first'' retryWorld
       = ZADD (queueKey plainQueue ''delayed'') (1800 + 1000 * 2 ^ (2 - 1)) ''first''
           (afterRecord\<lparr>clockReads := 3\<rparr>)
   \<and> delayedOf plainQueue (snd (processJob plainQueue failing ''first'' retryWorld))
       = [(''first'', 3800)]"
proof -
  let ?fields = "onceFailedFields @ [(''processedOn'', HNum 1000)]"
  have a: "processJobWithLock plainQueue ''first'' (runJob plainQueue failing) retryWorld
             = (Inl (HandlerError ''boom''), afterThrow)"
    by (simp add: afterThrow_def retryWorld_def onceFailedFields_def run_defs io_defs redis_defs
          queue_defs acquireLoop_numeral Let_def)
  have b: "redis afterThrow (getJobKey plainQueue ''first'') = Some (RHash ?fields)"
    by (simp add: afterThrow_def retryWorld_def onceFailedFields_def run_defs io_defs redis_defs
          queue_defs acquireLoop_numeral Let_def)
  have n: "?fields \<noteq> []" by simp
  have rb: "parseJob ''first'' ?fields = readBack" by (simp add: readBack_def)
  have c: "moveToFailed plainQueue (parseJob ''first'' ?fields)
             (errorMessage (HandlerError ''boom'')) None afterThrow = (Inr recorded, afterRecord)"
    unfolding rb
    by (simp add: afterRecord_def recorded_def readBack_def afterThrow_def retryWorld_def
          onceFailedFields_def run_defs io_defs redis_defs queue_defs acquireLoop_numeral Let_def)
  have d: "backoff (opts (parseJob ''first'' ?fields))
             = Some \<lparr>backoffType = Exponential, backoffDelay = 1000\<rparr>"
    by (simp add: onceFailedFields_def run_defs queue_defs)
  have k: "attemptsMade recorded = 2" "maxAttempts recorded = 3"
    by (simp_all add: recorded_def readBack_def onceFailedFields_def maxAttempts_def run_defs
          queue_defs)
  have e: "\<not> (useDeadLetter plainQueue recorded
              \<and> deadLetterMaxRetries plainQueue recorded \<le> attemptsMade recorded)"
    by (simp add: recorded_def readBack_def onceFailedFields_def run_defs queue_defs)
  have f: "attemptsMade recorded < maxAttempts recorded" using k by simp
  have t: "clock afterRecord (clockReads afterRecord) = 1800" "Suc (clockReads afterRecord) = 3"
    by (simp_all add: afterRecord_def recorded_def readBack_def afterThrow_def retryWorld_def
          onceFailedFields_def run_defs io_defs redis_defs queue_defs acquireLoop_numeral Let_def)
  from backoff_delay_formula[OF a b n c d e f, THEN conjunct2]
  have g: "processJob plainQueue failing ''first'' retryWorld
       = ZADD (queueKey plainQueue ''delayed'') (1800 + 1000 * 2 ^ (2 - 1)) ''first''
           (afterRecord\<lparr>clockReads := 3\<rparr>)"
    by (simp add: k t)
  have h: "delayedOf plainQueue (snd (processJob plainQueue failing ''first'' retryWorld))
       = [(''first'', 3800)]"
    unfolding g
    by (simp add: afterRecord_def recorded_def readBack_def afterThrow_def retryWorld_def
          onceFailedFields_def run_defs io_defs redis_defs queue_defs acquireLoop_numeral Let_def)
  from a b c d k g h rb show ?thesis by simp
qed

text \<open>
  C9. Resubmission by the limiter. When the queue has a limiter and \<^verbatim>\<open>check\<close> answers
  limited with the reset time \<open>resetIn\<close>, \<^verbatim>\<open>add\<close> calls itself with the options
  \<^verbatim>\<open>{...this.defaultJobOptions, ...options, delay: limiterResult.resetIn}\<close>: the delay of
  the resubmission is the reset time, whatever delay the caller asked for.
\<close>

theorem rate_limited_resubmission:
  assumes "limiter q = Some limiterOptions"
    and "check (keyPrefixOf q) (queueName q) limiterOptions (Some d) w = (Inr r, w')"
    and "limited r"
  shows "add (Suc n) q d options w =
           add n q d (Some ((spread (defaultJobOptions q) options)\<lparr>delay := Some (resetIn r)\<rparr>)) w'"
  using assms by (simp add: addOnce_def catch_def bnd_def ret_def)

theorem rate_limited_resubmission_witness:
  "limiter limitedQueue = Some \<lparr>limiterMax = 1, limiterDuration = 1000, keyPrefix = None\<rparr>
   \<and> fst (check (keyPrefixOf limitedQueue) (queueName limitedQueue)
             \<lparr>limiterMax = 1, limiterDuration = 1000, keyPrefix = None\<rparr> (Some []) limitedWorld)
       = Inr \<lparr>limited = True, remaining = 0, resetIn = 400\<rparr>
   \<and> add (Suc (Suc 0)) limitedQueue [] (Some slowOptions) limitedWorld
       = add (Suc 0) limitedQueue []
           (Some ((spread (defaultJobOptions limitedQueue) (Some slowOptions))\<lparr>delay := Some 400\<rparr>))
           (snd (check (keyPrefixOf limitedQueue) (queueName limitedQueue)
                   \<lparr>limiterMax = 1, limiterDuration = 1000, keyPrefix = None\<rparr> (Some []) limitedWorld))"
proof -
  let ?lo = "\<lparr>limiterMax = 1, limiterDuration = 1000, keyPrefix = None\<rparr>"
  let ?c = "check (keyPrefixOf limitedQueue) (queueName limitedQueue) ?lo (Some []) limitedWorld"
  have a: "limiter limitedQueue = Some ?lo" by (simp add: limitedQueue_def plainQueue_def)
  have b: "fst ?c = Inr \<lparr>limited = True, remaining = 0, resetIn = 400\<rparr>"
    by (simp add: run_defs io_defs redis_defs queue_defs Let_def)
  then have c: "?c = (Inr \<lparr>limited = True, remaining = 0, resetIn = 400\<rparr>, snd ?c)"
    by (metis prod.collapse)
  from rate_limited_resubmission[OF a c, of "Suc 0" "Some slowOptions"] a b show ?thesis by simp
qed

theorem rate_limited_delay_counterexample:
  "fst (addOnce limitedQueue [] (Some slowOptions) limitedWorld)
     = Inr (Inl (slowOptions\<lparr>delay := Some 400\<rparr>))
   \<and> delay (slowOptions\<lparr>delay := Some 400\<rparr>) \<noteq> Some (max 60000 400)
   \<and> map_option (delayedOf limitedQueue)
       (performAll limitedQueue [Add [] (Some slowOptions)] limitedWorld)
     = Some [(''slow'', 7400)]"
  by (simp add: run_defs io_defs redis_defs queue_defs Let_def)

text \<open>
  C10. Removing a job that is not there. When the hash of the job does not exist,
  \<^verbatim>\<open>removeJob\<close> returns without an error and leaves the whole state as it was: no key
  is deleted, no list, set or sorted set is changed, and no event is emitted.
\<close>

theorem removeJob_absent:
  assumes "noJobHash q jid w"
  shows "removeJob q jid w = (Inr (), w)"
proof (cases "redis w (getJobKey q jid)")
  case None
  then show ?thesis by (simp add: removeJob_def getJob_def EXISTS_def io_defs)
next
  case (Some v)
  with assms show ?thesis
    by (cases v)
       (simp_all add: noJobHash_def removeJob_def getJob_def refresh_def EXISTS_def HGETALL_def
          hashOf_def io_defs)
qed

theorem removeJob_absent_witness:
  "noJobHash plainQueue ''ghost'' ghostWorld
   \<and> removeJob plainQueue ''ghost'' ghostWorld = (Inr (), ghostWorld)
   \<and> waitingOf plainQueue ghostWorld = [''ghost'', ''first'']"
proof -
  have a: "noJobHash plainQueue ''ghost'' ghostWorld"
    by (simp add: noJobHash_def run_defs queue_defs)
  from removeJob_absent[OF a] a show ?thesis by (simp add: run_defs queue_defs)
qed


end
